theory Spec2Isabelle
  imports Complex_Main "HOL-Library.Word"
begin

section \<open>JavaScript strings\<close>

text \<open>
  A JavaScript string is a sequence of UTF-16 code units. Literals of the source are
  written with \<open>js\<close>, which reads an ASCII literal as its code units.
\<close>

type_synonym jschar = "16 word"
type_synonym jsstring = "jschar list"

definition js :: "string \<Rightarrow> jsstring" where
  "js s = map of_char s"

text \<open>
  The character classes of the two regular expressions and of \<open>String.prototype.trim\<close>.
  \<open>\s\<close> and \<open>trim\<close> both mean WhiteSpace or LineTerminator of ECMAScript; \<open>.\<close>
  means any code unit that is no LineTerminator; \<open>\d\<close> means \<open>0\<close> to \<open>9\<close>.
\<close>

definition is_line_terminator :: "jschar \<Rightarrow> bool" where
  "is_line_terminator c \<longleftrightarrow> c = 0x000A \<or> c = 0x000D \<or> c = 0x2028 \<or> c = 0x2029"

definition is_white_space :: "jschar \<Rightarrow> bool" where
  "is_white_space c \<longleftrightarrow>
     c = 0x0009 \<or> c = 0x000B \<or> c = 0x000C \<or> c = 0x0020 \<or> c = 0x00A0 \<or> c = 0x1680 \<or>
     (0x2000 \<le> c \<and> c \<le> 0x200A) \<or> c = 0x202F \<or> c = 0x205F \<or> c = 0x3000 \<or> c = 0xFEFF"

definition is_space :: "jschar \<Rightarrow> bool" where
  "is_space c \<longleftrightarrow> is_white_space c \<or> is_line_terminator c"

definition is_digit :: "jschar \<Rightarrow> bool" where
  "is_digit c \<longleftrightarrow> 0x30 \<le> c \<and> c \<le> 0x39"

text \<open>
  The flag \<open>i\<close> compares canonicalised code units. Every pattern character of the two
  expressions is ASCII, and a code unit from 128 on never canonicalises to an ASCII one,
  so upper-casing the ASCII letters decides every comparison the expressions make.
\<close>

definition canonicalize :: "jschar \<Rightarrow> jschar" where
  "canonicalize c = (if 0x61 \<le> c \<and> c \<le> 0x7A then c - 0x20 else c)"

definition ci_eq :: "jschar \<Rightarrow> jschar \<Rightarrow> bool" where
  "ci_eq p c \<longleftrightarrow> canonicalize p = canonicalize c"

fun ci_prefix :: "jsstring \<Rightarrow> jsstring \<Rightarrow> bool" where
  "ci_prefix [] s = True"
| "ci_prefix (p # ps) [] = False"
| "ci_prefix (p # ps) (c # s) = (ci_eq p c \<and> ci_prefix ps s)"

text \<open>
  \<open>toLowerCase\<close> on the strings the first capture group can hold (ASCII digits, the dot
  and the letters of \<open>a\<close> and \<open>an\<close> in either case): the ASCII capitals are lowered.
\<close>

definition toLowerCase :: "jsstring \<Rightarrow> jsstring" where
  "toLowerCase s = map (\<lambda>c. if 0x41 \<le> c \<and> c \<le> 0x5A then c + 0x20 else c) s"

definition trim :: "jsstring \<Rightarrow> jsstring" where
  "trim s = rev (dropWhile is_space (rev (dropWhile is_space s)))"

section \<open>JavaScript numbers\<close>

text \<open>
  A Number is a double: a finite value, one of the two infinities, or NaN. A finite double
  is kept as the rational it denotes, so the two zeros are one value here: only a division
  by zero or a test such as \<open>Object.is\<close> tells them apart, and this program has none
  (both zeros are falsy, both print and serialise as \<open>0\<close>, and \<open>*\<close>, \<open>+\<close> and
  \<open>Math.round\<close> give the same value for either). Every operation below returns a double;
  the type also holds rationals that are no doubles, which no operation returns and for
  which the properties hold as well.
\<close>

datatype number = Finite rat | PosInf | NegInf | NaN

definition pow2 :: "int \<Rightarrow> rat" where
  "pow2 k = (if 0 \<le> k then 2 ^ nat k else 1 / 2 ^ nat (- k))"

text \<open>The number of binary digits of a positive integer.\<close>

function bit_length :: "int \<Rightarrow> int" where
  "bit_length n = (if n \<le> 0 then 0 else bit_length (n div 2) + 1)"
  by pat_completeness auto
termination
  by (relation "measure nat") auto

text \<open>
  The binary exponent of a positive rational: the \<open>e\<close> with \<open>2^e \<le> x < 2^(e + 1)\<close>. The
  difference of the bit lengths of numerator and denominator is \<open>e\<close> or \<open>e + 1\<close>.
\<close>

definition exponent_of :: "rat \<Rightarrow> int" where
  "exponent_of x =
     (case quotient_of x of
        (a, b) \<Rightarrow>
          (let d = bit_length a - bit_length b in if pow2 d \<le> x then d else d - 1))"

text \<open>The nearest integer, a tie going to the even one.\<close>

definition round_even :: "rat \<Rightarrow> int" where
  "round_even m =
     (let f = \<lfloor>m\<rfloor>; d = m - of_int f
      in if d < 1 / 2 then f else if 1 / 2 < d then f + 1 else if even f then f else f + 1)"

text \<open>
  The Number value for a positive rational (IEEE 754 binary64, round to nearest, ties to
  even): the significand has 53 bits, so the unit in the last place is \<open>2^(e - 52)\<close>, and
  \<open>2^(- 1074)\<close> below the normal range; a result from \<open>2^1024\<close> on, that is one whose
  exponent is 1024 or more, is infinite.
\<close>

definition nearest_pos :: "rat \<Rightarrow> number" where
  "nearest_pos x =
     (let q = max (exponent_of x) (- 1022) - 52;
          y = of_int (round_even (x / pow2 q)) * pow2 q
      in if 1024 \<le> exponent_of y then PosInf else Finite y)"

definition negate :: "number \<Rightarrow> number" where
  "negate x =
     (case x of Finite r \<Rightarrow> Finite (- r) | PosInf \<Rightarrow> NegInf | NegInf \<Rightarrow> PosInf | NaN \<Rightarrow> NaN)"

definition to_number :: "rat \<Rightarrow> number" where
  "to_number x =
     (if x = 0 then Finite 0 else if 0 < x then nearest_pos x else negate (nearest_pos (- x)))"

text \<open>
  The operators \<open>*\<close> and \<open>+\<close> of lines 123 to 126: the exact result of two finite operands,
  rounded to a double; the IEEE rules for the infinities and NaN.
\<close>

fun fmul :: "number \<Rightarrow> number \<Rightarrow> number" where
  "fmul (Finite a) (Finite b) = to_number (a * b)"
| "fmul NaN y = NaN"
| "fmul x NaN = NaN"
| "fmul (Finite a) PosInf = (if a = 0 then NaN else if 0 < a then PosInf else NegInf)"
| "fmul (Finite a) NegInf = (if a = 0 then NaN else if 0 < a then NegInf else PosInf)"
| "fmul PosInf (Finite b) = (if b = 0 then NaN else if 0 < b then PosInf else NegInf)"
| "fmul NegInf (Finite b) = (if b = 0 then NaN else if 0 < b then NegInf else PosInf)"
| "fmul PosInf PosInf = PosInf"
| "fmul PosInf NegInf = NegInf"
| "fmul NegInf PosInf = NegInf"
| "fmul NegInf NegInf = PosInf"

fun fadd :: "number \<Rightarrow> number \<Rightarrow> number" where
  "fadd (Finite a) (Finite b) = to_number (a + b)"
| "fadd NaN y = NaN"
| "fadd x NaN = NaN"
| "fadd PosInf NegInf = NaN"
| "fadd NegInf PosInf = NaN"
| "fadd PosInf y = PosInf"
| "fadd NegInf y = NegInf"
| "fadd (Finite a) PosInf = PosInf"
| "fadd (Finite a) NegInf = NegInf"

text \<open>
  \<open>Math.round\<close>: the nearest integer, a tie going up; an infinity or NaN is returned as it
  is. The integer is a double whenever the argument is one.
\<close>

definition math_round :: "number \<Rightarrow> number" where
  "math_round x = (case x of Finite r \<Rightarrow> Finite (of_int \<lfloor>r + 1 / 2\<rfloor>) | _ \<Rightarrow> x)"

text \<open>
  What \<open>JSON.stringify\<close> writes for a Number in the body of a response: the value of a
  finite one, and \<open>null\<close> (\<open>None\<close>) for an infinity or NaN.
\<close>

definition sent :: "number \<Rightarrow> rat option" where
  "sent x = (case x of Finite r \<Rightarrow> Some r | _ \<Rightarrow> None)"

text \<open>The falsy Numbers are zero and NaN. \<open>at_least_zero x\<close> is \<open>x >= 0\<close>.\<close>

definition falsy :: "number \<Rightarrow> bool" where
  "falsy x \<longleftrightarrow> x = Finite 0 \<or> x = NaN"

definition at_least_zero :: "number \<Rightarrow> bool" where
  "at_least_zero x = (case x of Finite r \<Rightarrow> 0 \<le> r | PosInf \<Rightarrow> True | _ \<Rightarrow> False)"

section \<open>The query segmenter: \<open>parseItems\<close>\<close>

subsection \<open>\<open>query.split(/,| and /i)\<close>\<close>

text \<open>
  \<open>split\<close> scans the string from the left. Where the expression matches at the current
  position (a comma, or \<open>and\<close> between two blanks in any case), the fragment collected
  so far is emitted and the scan goes on behind the separator; elsewhere the code unit
  joins the fragment. The last fragment is emitted at the end, so the empty string gives
  one empty fragment.
\<close>

fun split_sep :: "jsstring \<Rightarrow> jsstring \<Rightarrow> jsstring list" where
  "split_sep cur [] = [cur]"
| "split_sep cur (c # s) =
     (if c = 0x2C then cur # split_sep [] s
      else if ci_prefix (js '' and '') (c # s) then cur # split_sep [] (drop 4 s)
      else split_sep (cur @ [c]) s)"

definition split :: "jsstring \<Rightarrow> jsstring list" where
  "split query = split_sep [] query"

subsection \<open>\<open>part.match(/^(\d+(\.\d+)?|a|an)\s+(.*)/i)\<close>\<close>

text \<open>
  The ways \<open>\d+\<close> can match at the start of a string, as pairs of the matched digits
  and the rest, in the order the backtracking matcher tries them: longest first.
\<close>

definition digit_runs :: "jsstring \<Rightarrow> (jsstring \<times> jsstring) list" where
  "digit_runs s =
     map (\<lambda>k. (take k s, drop k s)) (rev [1 ..< Suc (length (takeWhile is_digit s))])"

text \<open>
  \<open>\d+(\.\d+)?\<close>: for each way to match the integer part, first with the optional
  fraction (the group is greedy), then without it.
\<close>

definition number_tokens :: "jsstring \<Rightarrow> (jsstring \<times> jsstring) list" where
  "number_tokens s =
     concat (map (\<lambda>(d, r).
       (case r of
          [] \<Rightarrow> []
        | c # r' \<Rightarrow>
            if c = 0x2E then map (\<lambda>(f, r''). (d @ c # f, r'')) (digit_runs r') else [])
       @ [(d, r)]) (digit_runs s))"

text \<open>The alternatives \<open>a\<close> and \<open>an\<close>, in this order.\<close>

definition article_tokens :: "jsstring \<Rightarrow> (jsstring \<times> jsstring) list" where
  "article_tokens s =
     (case s of
        [] \<Rightarrow> []
      | c # r \<Rightarrow>
          if ci_eq 0x61 c then
            ([c], r) #
            (case r of
               [] \<Rightarrow> []
             | c' # r' \<Rightarrow> if ci_eq 0x6E c' then [([c, c'], r')] else [])
          else [])"

definition quantity_tokens :: "jsstring \<Rightarrow> (jsstring \<times> jsstring) list" where
  "quantity_tokens s = number_tokens s @ article_tokens s"

definition starts_with_space :: "jsstring \<Rightarrow> bool" where
  "starts_with_space r = (case r of [] \<Rightarrow> False | c # _ \<Rightarrow> is_space c)"

text \<open>
  The match: the first candidate for group 1 behind which \<open>\s+\<close> can match. \<open>\s+\<close>
  takes every blank that follows and \<open>(.*)\<close> everything up to the first line
  terminator; the expression ends there, so neither is ever backtracked into.
  The result holds groups 1 and 3; \<open>None\<close> is \<open>null\<close>.
\<close>

definition match_quantity :: "jsstring \<Rightarrow> (jsstring \<times> jsstring) option" where
  "match_quantity part =
     (case find (\<lambda>(tok, r). starts_with_space r) (quantity_tokens part) of
        None \<Rightarrow> None
      | Some (tok, r) \<Rightarrow>
          Some (tok, takeWhile (\<lambda>c. \<not> is_line_terminator c) (dropWhile is_space r)))"

subsection \<open>\<open>parseFloat\<close>\<close>

definition digit_value :: "jschar \<Rightarrow> nat" where
  "digit_value c = unat (c - 0x30)"

definition decimal :: "jsstring \<Rightarrow> nat" where
  "decimal ds = foldl (\<lambda>a c. 10 * a + digit_value c) 0 ds"

text \<open>
  The mathematical value of the unsigned decimal literal a string starts with: the
  digits, and the fraction behind a dot.
\<close>

definition decimal_value :: "jsstring \<Rightarrow> rat" where
  "decimal_value s =
     (let ip = takeWhile is_digit s in
      of_nat (decimal ip) +
      (case drop (length ip) s of
         [] \<Rightarrow> 0
       | c # r \<Rightarrow>
           if c = 0x2E then
             (let fp = takeWhile is_digit r in of_nat (decimal fp) / 10 ^ length fp)
           else 0))"

text \<open>
  \<open>parseFloat\<close> on a string that starts with a digit, which is all the numeric
  alternative of group 1 can hold (no blank, sign, leading dot, exponent or \<open>Infinity\<close>):
  the double nearest to the value of the literal, as Node's engine computes it (past 20
  significant digits the language leaves the last bit to the engine). It is infinite for
  a literal beyond the range and zero for one below it. For a string with no leading
  digit the model says NaN.
\<close>

definition parseFloat :: "jsstring \<Rightarrow> number" where
  "parseFloat s =
     (if takeWhile is_digit s = [] then NaN else to_number (decimal_value s))"

subsection \<open>\<open>parseItems\<close>\<close>

record item =
  qty :: number
  item_text :: jsstring

definition parse_part :: "jsstring \<Rightarrow> item" where
  "parse_part part =
     (case match_quantity part of
        None \<Rightarrow> \<lparr>qty = Finite 1, item_text = part\<rparr>
      | Some (m1, m3) \<Rightarrow>
          \<lparr>qty = (if toLowerCase m1 = js ''a'' \<or> toLowerCase m1 = js ''an'' then Finite 1
                  else parseFloat m1),
           item_text = m3\<rparr>)"

text \<open>Line 10: the trimmed fragments that are not empty.\<close>

definition parts :: "jsstring \<Rightarrow> jsstring list" where
  "parts query = filter (\<lambda>s. s \<noteq> []) (map trim (split query))"

definition parseItems :: "jsstring \<Rightarrow> item list" where
  "parseItems query = map parse_part (parts query)"

section \<open>The item resolver: \<open>searchFood\<close>\<close>

subsection \<open>The operator \<open>||\<close> on Numbers\<close>

text \<open>
  A value that may be \<open>undefined\<close> or \<open>null\<close> is an option. For such a value, \<open>v || d\<close> is
  \<open>d\<close> when \<open>v\<close> is missing or falsy, and \<open>v\<close> otherwise.
\<close>

definition truthy :: "number option \<Rightarrow> bool" where
  "truthy v = (case v of None \<Rightarrow> False | Some x \<Rightarrow> \<not> falsy x)"

definition or_opt :: "number option \<Rightarrow> number option \<Rightarrow> number option" where
  "or_opt v w = (if truthy v then v else w)"

definition or_num :: "number option \<Rightarrow> number \<Rightarrow> number" where
  "or_num v d = (case v of None \<Rightarrow> d | Some x \<Rightarrow> if falsy x then d else x)"

subsection \<open>The upstream response\<close>

text \<open>
  The data of a successful search: the member \<open>foods\<close> is an array, or is absent or
  \<open>null\<close> (\<open>None\<close>). A food is an object with a \<open>description\<close> and a member
  \<open>foodNutrients\<close>, an array of objects or absent; the \<open>value\<close> of a nutrient is a Number
  (what \<open>JSON.parse\<close> made of the text) or absent. A member \<open>foods\<close> that holds a value
  of another kind (a string, a number, an object) is not modelled.
\<close>

record food_nutrient =
  nutrientName :: jsstring
  nutrient_value :: "number option"

record food =
  description :: jsstring
  foodNutrients :: "food_nutrient list option"

record search_data =
  foods :: "food list option"

text \<open>
  What one attempt meets:
  \<^item> \<open>Thrown\<close>: \<open>fetch\<close> rejects, or the body cannot be read or parsed;
  \<^item> \<open>Status_not_ok\<close>: a response whose \<open>ok\<close> is false;
  \<^item> \<open>Body_null\<close>: a response whose \<open>ok\<close> is true and whose body is the JSON value
    \<open>null\<close>, so that \<open>data.foods\<close> of line 57 throws a TypeError inside the \<open>try\<close> block;
  \<^item> \<open>Success\<close>: a response whose \<open>ok\<close> is true and whose body is another JSON value,
    with its data. A body that is no object (a number, a string, an array) has no member
    \<open>foods\<close>, as an object without one.
\<close>

datatype fetch_result = Thrown | Status_not_ok | Body_null | Success search_data

text \<open>What the resolver does to the world: requests, and pauses in milliseconds.\<close>

datatype event = Fetch jsstring jsstring | Sleep nat

subsection \<open>Lines 60 to 72: from the first food to the result\<close>

record macros =
  calories :: number
  protein :: number
  carbs :: number
  fat :: number

record nutrient_result = macros +
  name :: jsstring

text \<open>
  The object \<open>nutrients\<close>, filled in the order of the array, a later entry overwriting an
  earlier one of the same name. It starts as \<open>{}\<close>, which inherits from
  \<open>Object.prototype\<close>: assigning a number under the name \<open>__proto__\<close> calls the setter
  that is inherited for this name, which ignores a number and writes nothing; every other
  name is written as an own property. None of the names read below is a property of
  \<open>Object.prototype\<close>, so reading one that was never written gives \<open>undefined\<close>.
\<close>

definition nutrients_of :: "food_nutrient list \<Rightarrow> (jsstring \<rightharpoonup> number)" where
  "nutrients_of ns =
     fold (\<lambda>n nutrients.
             if nutrientName n = js ''__proto__'' then nutrients
             else nutrients(nutrientName n \<mapsto> or_num (nutrient_value n) (Finite 0)))
       ns Map.empty"

text \<open>Line 62: \<open>food.foodNutrients || []\<close>.\<close>

definition nutrient_list :: "food \<Rightarrow> food_nutrient list" where
  "nutrient_list food = (case foodNutrients food of None \<Rightarrow> [] | Some ns \<Rightarrow> ns)"

definition nutrient_result_of :: "food \<Rightarrow> nutrient_result" where
  "nutrient_result_of food =
     (let nutrients = nutrients_of (nutrient_list food)
      in \<lparr>calories =
            or_num (or_opt (nutrients (js ''Energy''))
                           (nutrients (js ''Energy (Atwater General Factors)''))) (Finite 0),
          protein = or_num (nutrients (js ''Protein'')) (Finite 0),
          carbs = or_num (nutrients (js ''Carbohydrate, by difference'')) (Finite 0),
          fat = or_num (nutrients (js ''Total lipid (fat)'')) (Finite 0),
          name = description food\<rparr>)"

subsection \<open>The retry loop\<close>

text \<open>Line 57: \<open>data.foods || []\<close>.\<close>

definition candidates :: "search_data \<Rightarrow> food list" where
  "candidates data = (case foods data of None \<Rightarrow> [] | Some fs \<Rightarrow> fs)"

text \<open>
  \<open>fetch k\<close> is what attempt \<open>k\<close> of this call meets. The loop runs from the given attempt;
  the result is the returned value (\<open>None\<close> for \<open>null\<close>) and the events in order: a request
  for each attempt made, and the pause of line 50 or 82 before the next one. The branches
  \<open>Thrown\<close> and \<open>Body_null\<close> are the \<open>catch\<close> block of line 79.
\<close>

function searchFood_from ::
  "(nat \<Rightarrow> fetch_result) \<Rightarrow> jsstring \<Rightarrow> jsstring \<Rightarrow> nat \<Rightarrow> nat
     \<Rightarrow> nutrient_result option \<times> event list" where
  "searchFood_from fetch apiKey itemText retries attempt =
     (if attempt \<le> retries then
        (case fetch attempt of
           Success data \<Rightarrow>
             (case candidates data of
                food # _ \<Rightarrow> (Some (nutrient_result_of food), [Fetch apiKey itemText])
              | [] \<Rightarrow> (None, [Fetch apiKey itemText]))
         | Status_not_ok \<Rightarrow>
             if attempt < retries then
               (case searchFood_from fetch apiKey itemText retries (Suc attempt) of
                  (result, events) \<Rightarrow> (result, Fetch apiKey itemText # Sleep 300 # events))
             else (None, [Fetch apiKey itemText])
         | Thrown \<Rightarrow>
             if attempt < retries then
               (case searchFood_from fetch apiKey itemText retries (Suc attempt) of
                  (result, events) \<Rightarrow> (result, Fetch apiKey itemText # Sleep 300 # events))
             else (None, [Fetch apiKey itemText])
         | Body_null \<Rightarrow>
             if attempt < retries then
               (case searchFood_from fetch apiKey itemText retries (Suc attempt) of
                  (result, events) \<Rightarrow> (result, Fetch apiKey itemText # Sleep 300 # events))
             else (None, [Fetch apiKey itemText]))
      else (None, []))"
  by pat_completeness auto
termination
  by (relation "measure (\<lambda>(fetch, apiKey, itemText, retries, attempt). Suc retries - attempt)")
    auto

definition searchFood ::
  "(nat \<Rightarrow> fetch_result) \<Rightarrow> jsstring \<Rightarrow> jsstring \<Rightarrow> nat
     \<Rightarrow> nutrient_result option \<times> event list" where
  "searchFood fetch apiKey itemText retries = searchFood_from fetch apiKey itemText retries 0"

text \<open>The default of the parameter \<open>retries\<close>.\<close>

definition default_retries :: nat where
  "default_retries = 2"

section \<open>The aggregator: the request handler\<close>

text \<open>
  The loop over the items keeps the running totals, the two lists and, here, the events
  of the calls it made. An entry of \<open>foundItems\<close> is kept as the pair of the quantity
  and the matched name that the source formats into \<open>"<qty> x <name>"\<close>.
  \<open>upstream i k\<close> is what attempt \<open>k\<close> of the call for the item at index \<open>i\<close> meets.
\<close>

record loop_state =
  totalNutrients :: macros
  foundItems :: "(number \<times> jsstring) list"
  notFoundItems :: "jsstring list"
  events :: "event list"

fun process_items ::
  "(nat \<Rightarrow> nat \<Rightarrow> fetch_result) \<Rightarrow> jsstring \<Rightarrow> nat \<Rightarrow> item list \<Rightarrow> loop_state
     \<Rightarrow> loop_state" where
  "process_items upstream apiKey i [] st = st"
| "process_items upstream apiKey i (item # items) st =
     (case searchFood (upstream i) apiKey (item_text item) default_retries of
        (Some result, evs) \<Rightarrow>
          process_items upstream apiKey (Suc i) items
            \<lparr>totalNutrients =
               \<lparr>calories = fadd (calories (totalNutrients st)) (fmul (calories result) (qty item)),
                protein = fadd (protein (totalNutrients st)) (fmul (protein result) (qty item)),
                carbs = fadd (carbs (totalNutrients st)) (fmul (carbs result) (qty item)),
                fat = fadd (fat (totalNutrients st)) (fmul (fat result) (qty item))\<rparr>,
             foundItems = foundItems st @ [(qty item, name result)],
             notFoundItems = notFoundItems st,
             events = events st @ evs\<rparr>
      | (None, evs) \<Rightarrow>
          process_items upstream apiKey (Suc i) items
            \<lparr>totalNutrients = totalNutrients st,
             foundItems = foundItems st,
             notFoundItems = notFoundItems st @ [item_text item],
             events = events st @ evs\<rparr>)"

text \<open>
  The responses. The first two are the error responses of lines 101 and 106, with status
  400 and 500; the other two are the objects given to \<open>res.json\<close> at lines 133 and 139,
  the first with \<open>found: false\<close> and the phrase of its message, the second with
  \<open>found: true\<close> and the fields below, the four totals as the Numbers \<open>Math.round\<close>
  returned.
\<close>

record outcome =
  out_name :: "(number \<times> jsstring) list"
  out_calories :: number
  out_protein :: number
  out_carbs :: number
  out_fat :: number
  partial :: bool
  missing :: "jsstring list"

datatype response =
    Missing_query
  | Key_not_configured
  | Not_found jsstring
  | Found outcome

definition handler ::
  "(nat \<Rightarrow> nat \<Rightarrow> fetch_result) \<Rightarrow> jsstring option \<Rightarrow> jsstring option
     \<Rightarrow> response \<times> event list" where
  "handler upstream rawQuery env_key =
     (case rawQuery of
        None \<Rightarrow> (Missing_query, [])
      | Some query \<Rightarrow>
          if query = [] then (Missing_query, [])
          else
            (case env_key of
               None \<Rightarrow> (Key_not_configured, [])
             | Some apiKey \<Rightarrow>
                 if apiKey = [] then (Key_not_configured, [])
                 else
                   (let st = process_items upstream apiKey 0 (parseItems query)
                               \<lparr>totalNutrients =
                                  \<lparr>calories = Finite 0, protein = Finite 0,
                                   carbs = Finite 0, fat = Finite 0\<rparr>,
                                foundItems = [], notFoundItems = [], events = []\<rparr>
                    in if foundItems st = [] then (Not_found query, events st)
                       else
                         (Found
                            \<lparr>out_name = foundItems st,
                             out_calories = math_round (calories (totalNutrients st)),
                             out_protein = math_round (protein (totalNutrients st)),
                             out_carbs = math_round (carbs (totalNutrients st)),
                             out_fat = math_round (fat (totalNutrients st)),
                             partial = (notFoundItems st \<noteq> []),
                             missing = notFoundItems st\<rparr>,
                          events st))))"

text \<open>The fields of the JSON object sent, \<open>None\<close> where the object has no such field.\<close>

definition found :: "response \<Rightarrow> bool option" where
  "found r = (case r of Found out \<Rightarrow> Some True | Not_found q \<Rightarrow> Some False | _ \<Rightarrow> None)"

definition outcome_of :: "response \<Rightarrow> outcome option" where
  "outcome_of r = (case r of Found out \<Rightarrow> Some out | _ \<Rightarrow> None)"

section \<open>Notions the properties are stated with\<close>

subsection \<open>Segmenter\<close>

text \<open>
  The code units a separator is made of: the comma, the blank, and the letters of
  \<open>and\<close> in either case.
\<close>

definition separator_char :: "jschar \<Rightarrow> bool" where
  "separator_char c \<longleftrightarrow>
     c = 0x2C \<or> ci_eq 0x20 c \<or> ci_eq 0x61 c \<or> ci_eq 0x6E c \<or> ci_eq 0x64 c"

subsection \<open>Resolver\<close>

text \<open>The entries of a nutrient array that carry a given name, in the order of the array.\<close>

definition named :: "jsstring \<Rightarrow> food_nutrient list \<Rightarrow> food_nutrient list" where
  "named nm ns = filter (\<lambda>n. nutrientName n = nm) ns"

text \<open>
  The value an array gives a name: the value of the last entry of that name; zero when
  no entry has the name, or that entry has no value or the value NaN.
\<close>

definition named_value :: "food_nutrient list \<Rightarrow> jsstring \<Rightarrow> number" where
  "named_value ns nm =
     (if named nm ns = [] then Finite 0
      else (case nutrient_value (last (named nm ns)) of
              None \<Rightarrow> Finite 0
            | Some v \<Rightarrow> if v = NaN then Finite 0 else v))"

text \<open>
  The calories as the specification words them: from \<open>Energy\<close> when an entry of that
  name is present, from the Atwater variant only when none is.
\<close>

definition claimed_calories :: "food_nutrient list \<Rightarrow> number" where
  "claimed_calories ns =
     (if named (js ''Energy'') ns \<noteq> [] then named_value ns (js ''Energy'')
      else named_value ns (js ''Energy (Atwater General Factors)''))"

text \<open>
  A failed attempt, the kind that is retried: the status was no success, or the attempt
  ended in the \<open>catch\<close> block.
\<close>

definition transient :: "fetch_result \<Rightarrow> bool" where
  "transient r \<longleftrightarrow> r = Thrown \<or> r = Status_not_ok \<or> r = Body_null"

text \<open>
  The events of a call that retried \<open>n\<close> times: \<open>n\<close> requests, each followed by the
  pause of 300 milliseconds, and the last request.
\<close>

definition retry_events :: "jsstring \<Rightarrow> jsstring \<Rightarrow> nat \<Rightarrow> event list" where
  "retry_events apiKey itemText n =
     concat (replicate n [Fetch apiKey itemText, Sleep 300]) @ [Fetch apiKey itemText]"

text \<open>What a successful response is answered with: the first candidate, or not-found.\<close>

definition attempt_result :: "search_data \<Rightarrow> nutrient_result option" where
  "attempt_result d =
     (case candidates d of [] \<Rightarrow> None | food # _ \<Rightarrow> Some (nutrient_result_of food))"

subsection \<open>Aggregator\<close>

text \<open>
  The outcome of the resolver for the item at index \<open>i\<close>, and the outcomes for all the
  items of a phrase, in order.
\<close>

definition resolve ::
  "(nat \<Rightarrow> nat \<Rightarrow> fetch_result) \<Rightarrow> jsstring \<Rightarrow> nat \<Rightarrow> item \<Rightarrow> nutrient_result option" where
  "resolve upstream apiKey i it =
     fst (searchFood (upstream i) apiKey (item_text it) default_retries)"

fun outcomes_from ::
  "(nat \<Rightarrow> nat \<Rightarrow> fetch_result) \<Rightarrow> jsstring \<Rightarrow> nat \<Rightarrow> item list
     \<Rightarrow> (item \<times> nutrient_result option) list" where
  "outcomes_from upstream apiKey i [] = []"
| "outcomes_from upstream apiKey i (it # its) =
     (it, resolve upstream apiKey i it) # outcomes_from upstream apiKey (Suc i) its"

definition outcomes ::
  "(nat \<Rightarrow> nat \<Rightarrow> fetch_result) \<Rightarrow> jsstring \<Rightarrow> jsstring
     \<Rightarrow> (item \<times> nutrient_result option) list" where
  "outcomes upstream apiKey query = outcomes_from upstream apiKey 0 (parseItems query)"

text \<open>The items that resolved, with their results, and the items that did not.\<close>

fun resolved :: "(item \<times> nutrient_result option) list \<Rightarrow> (item \<times> nutrient_result) list" where
  "resolved [] = []"
| "resolved ((it, None) # rs) = resolved rs"
| "resolved ((it, Some r) # rs) = (it, r) # resolved rs"

fun unresolved :: "(item \<times> nutrient_result option) list \<Rightarrow> item list" where
  "unresolved [] = []"
| "unresolved ((it, None) # rs) = it # unresolved rs"
| "unresolved ((it, Some r) # rs) = unresolved rs"

text \<open>
  The sum, over resolved items, of a field of the result times the quantity: each product
  a double, added in the order of the items to a total that starts at zero, each sum a
  double again.
\<close>

definition weighted_sum ::
  "(nutrient_result \<Rightarrow> number) \<Rightarrow> (item \<times> nutrient_result) list \<Rightarrow> number" where
  "weighted_sum field rs = foldl fadd (Finite 0) (map (\<lambda>(it, r). fmul (field r) (qty it)) rs)"

text \<open>The four rounded fields as the response sends them, \<open>None\<close> where it has none.\<close>

definition rounded_totals ::
  "response \<Rightarrow> (rat option \<times> rat option \<times> rat option \<times> rat option) option" where
  "rounded_totals r =
     map_option
       (\<lambda>out. (sent (out_calories out), sent (out_protein out), sent (out_carbs out),
                sent (out_fat out)))
       (outcome_of r)"

subsection \<open>Example inputs\<close>

definition egg :: food where
  "egg = \<lparr>description = js ''Egg'',
          foodNutrients = Some
            [\<lparr>nutrientName = js ''Energy'', nutrient_value = Some (Finite (5 / 16))\<rparr>,
             \<lparr>nutrientName = js ''Protein'', nutrient_value = Some (Finite (25 / 4))\<rparr>]\<rparr>"

definition banana :: food where
  "banana = \<lparr>description = js ''Banana'',
             foodNutrients = Some
               [\<lparr>nutrientName = js ''Energy'', nutrient_value = Some (Finite (5 / 8))\<rparr>,
                \<lparr>nutrientName = js ''Carbohydrate, by difference'',
                 nutrient_value = Some (Finite 23)\<rparr>]\<rparr>"

definition rice :: food where
  "rice = \<lparr>description = js ''Rice'',
           foodNutrients = Some
             [\<lparr>nutrientName = js ''Energy'', nutrient_value = Some (Finite 165)\<rparr>]\<rparr>"

text \<open>Every call succeeds at once: the first item is an egg, every other a banana.\<close>

definition upstream_both :: "nat \<Rightarrow> nat \<Rightarrow> fetch_result" where
  "upstream_both i k = Success \<lparr>foods = Some [if i = 0 then egg else banana]\<rparr>"

text \<open>Every call succeeds at once, with rice.\<close>

definition upstream_rice :: "nat \<Rightarrow> nat \<Rightarrow> fetch_result" where
  "upstream_rice i k = Success \<lparr>foods = Some [rice]\<rparr>"

text \<open>The first item is found at its second attempt; every other item has no match.\<close>

definition upstream_first :: "nat \<Rightarrow> nat \<Rightarrow> fetch_result" where
  "upstream_first i k =
     (if i = 0 then (if k = 0 then Thrown else Success \<lparr>foods = Some [egg]\<rparr>)
      else Success \<lparr>foods = Some []\<rparr>)"

text \<open>Every attempt of every call meets a status that is no success.\<close>

definition upstream_down :: "nat \<Rightarrow> nat \<Rightarrow> fetch_result" where
  "upstream_down i k = Status_not_ok"

text \<open>Every attempt of every call meets a success whose body is \<open>null\<close>.\<close>

definition upstream_null :: "nat \<Rightarrow> nat \<Rightarrow> fetch_result" where
  "upstream_null i k = Body_null"

text \<open>A food whose \<open>Energy\<close> is present with the value zero.\<close>

definition zero_energy :: food where
  "zero_energy = \<lparr>description = js ''Tea'',
     foodNutrients = Some
       [\<lparr>nutrientName = js ''Energy'', nutrient_value = Some (Finite 0)\<rparr>,
        \<lparr>nutrientName = js ''Energy (Atwater General Factors)'',
         nutrient_value = Some (Finite 50)\<rparr>]\<rparr>"

text \<open>A food that names \<open>Protein\<close> twice.\<close>

definition twice_protein :: "food_nutrient list" where
  "twice_protein =
     [\<lparr>nutrientName = js ''Protein'', nutrient_value = Some (Finite 5)\<rparr>,
      \<lparr>nutrientName = js ''Protein'', nutrient_value = Some (Finite 7)\<rparr>,
      \<lparr>nutrientName = js ''Energy'', nutrient_value = Some (Finite 100)\<rparr>]"

text \<open>A food that names \<open>Energy\<close> twice, the second time with the value zero.\<close>

definition twice_energy :: food where
  "twice_energy = \<lparr>description = js ''Broth'',
     foodNutrients = Some
       [\<lparr>nutrientName = js ''Energy (Atwater General Factors)'',
         nutrient_value = Some (Finite 40)\<rparr>,
        \<lparr>nutrientName = js ''Energy'', nutrient_value = Some (Finite 100)\<rparr>,
        \<lparr>nutrientName = js ''Energy'', nutrient_value = Some (Finite 0)\<rparr>]\<rparr>"

section \<open>The segmenter: lemmas\<close>

lemma digit_runs_append: "(d, r) \<in> set (digit_runs s) \<Longrightarrow> d @ r = s"
  by (auto simp: digit_runs_def)

lemma number_tokens_append: "(tok, r) \<in> set (number_tokens s) \<Longrightarrow> tok @ r = s"
  by (auto simp: number_tokens_def split: list.splits if_splits dest!: digit_runs_append)

lemma article_tokens_append: "(tok, r) \<in> set (article_tokens s) \<Longrightarrow> tok @ r = s"
  by (auto simp: article_tokens_def split: list.splits if_splits)

lemma quantity_tokens_append: "(tok, r) \<in> set (quantity_tokens s) \<Longrightarrow> tok @ r = s"
  by (auto simp: quantity_tokens_def dest: number_tokens_append article_tokens_append)

lemma trim_last: "trim s \<noteq> [] \<Longrightarrow> \<not> is_space (last (trim s))"
  unfolding trim_def using hd_dropWhile [of is_space "rev (dropWhile is_space s)"]
  by (simp add: last_rev)

lemma line_terminator_is_space: "is_line_terminator c \<Longrightarrow> is_space c"
  by (simp add: is_space_def)

text \<open>
  Behind a trimmed fragment's quantity token, group 3 is never empty: the fragment ends
  in a code unit that is no blank, and a code unit that is no blank is no line terminator.
\<close>

lemma group3_nonempty:
  assumes "r \<noteq> []" "\<not> is_space (last r)"
  shows "takeWhile (\<lambda>c. \<not> is_line_terminator c) (dropWhile is_space r) \<noteq> []"
proof -
  have "last r \<in> set r" using assms(1) by simp
  then have ne: "dropWhile is_space r \<noteq> []"
    using assms(2) by auto
  then have "\<not> is_space (hd (dropWhile is_space r))" by (rule hd_dropWhile)
  then have "\<not> is_line_terminator (hd (dropWhile is_space r))"
    using line_terminator_is_space by blast
  with ne show ?thesis by (cases "dropWhile is_space r") auto
qed

lemma match_quantity_Some:
  assumes "match_quantity part = Some (m1, m3)"
  obtains r where "m1 @ r = part" "starts_with_space r"
    "m3 = takeWhile (\<lambda>c. \<not> is_line_terminator c) (dropWhile is_space r)"
    "(m1, r) \<in> set (quantity_tokens part)"
proof -
  from assms obtain r where
    f: "find (\<lambda>(tok, r). starts_with_space r) (quantity_tokens part) = Some (m1, r)"
    and m3: "m3 = takeWhile (\<lambda>c. \<not> is_line_terminator c) (dropWhile is_space r)"
    by (auto simp: match_quantity_def split: option.splits)
  from f have "(m1, r) \<in> set (quantity_tokens part)" "starts_with_space r"
    by (auto simp: find_Some_iff in_set_conv_nth)
  with m3 quantity_tokens_append that show thesis by blast
qed

lemma parse_part_text:
  assumes "part \<noteq> []" "\<not> is_space (last part)"
  shows "item_text (parse_part part) \<noteq> []"
proof (cases "match_quantity part")
  case None
  then show ?thesis using assms by (simp add: parse_part_def)
next
  case (Some m)
  obtain m1 m3 where m: "m = (m1, m3)" by (cases m)
  from Some m obtain r where r: "m1 @ r = part" "starts_with_space r"
    "m3 = takeWhile (\<lambda>c. \<not> is_line_terminator c) (dropWhile is_space r)"
    by (auto elim: match_quantity_Some)
  from r(2) have "r \<noteq> []" by (auto simp: starts_with_space_def)
  moreover from this r(1) assms(2) have "\<not> is_space (last r)" by auto
  ultimately have "m3 \<noteq> []" unfolding r(3) by (rule group3_nonempty)
  then show ?thesis using Some m by (simp add: parse_part_def)
qed

lemma parts_trimmed: "part \<in> set (parts query) \<Longrightarrow> part \<noteq> [] \<and> \<not> is_space (last part)"
  by (auto simp: parts_def trim_last)

lemma dropWhile_all: "(\<forall>x \<in> set (dropWhile P xs). P x) \<longleftrightarrow> (\<forall>x \<in> set xs. P x)"
proof
  assume a: "\<forall>x \<in> set (dropWhile P xs). P x"
  have "dropWhile P xs = []"
  proof (rule ccontr)
    assume ne: "dropWhile P xs \<noteq> []"
    then have "\<not> P (hd (dropWhile P xs))" by (rule hd_dropWhile)
    moreover from ne have "hd (dropWhile P xs) \<in> set (dropWhile P xs)" by simp
    ultimately show False using a by blast
  qed
  then show "\<forall>x \<in> set xs. P x" by simp
next
  assume "\<forall>x \<in> set xs. P x"
  then show "\<forall>x \<in> set (dropWhile P xs). P x" by (auto dest: set_dropWhileD)
qed

lemma trim_Nil_iff: "trim s = [] \<longleftrightarrow> list_all is_space s"
  by (simp add: trim_def dropWhile_all list_all_iff)

lemma parts_nonempty_iff:
  "parts query \<noteq> [] \<longleftrightarrow> (\<exists>f \<in> set (split query). \<not> list_all is_space f)"
  by (auto simp: parts_def filter_empty_conv trim_Nil_iff)

lemma ci_eq_a: "ci_eq 0x61 c \<Longrightarrow> c = 0x61 \<or> c = 0x41"
  by (auto simp: ci_eq_def canonicalize_def split: if_splits)

lemma ci_eq_n: "ci_eq 0x6E c \<Longrightarrow> c = 0x6E \<or> c = 0x4E"
  by (auto simp: ci_eq_def canonicalize_def split: if_splits)

text \<open>
  A token of the alternatives \<open>a\<close> and \<open>an\<close> is recognised by the comparison of line 19,
  so \<open>parseFloat\<close> only ever reads a token of the numeric alternative.
\<close>

lemma article_tokens_lower:
  "(tok, r) \<in> set (article_tokens s) \<Longrightarrow>
   toLowerCase tok = js ''a'' \<or> toLowerCase tok = js ''an''"
  by (auto simp: article_tokens_def toLowerCase_def js_def split: list.splits if_splits
      dest!: ci_eq_a ci_eq_n)

lemma digit_runs_digits:
  assumes "(d, r) \<in> set (digit_runs s)"
  shows "d \<noteq> [] \<and> list_all is_digit d"
proof -
  from assms obtain k where k: "1 \<le> k" "k \<le> length (takeWhile is_digit s)" "d = take k s"
    by (auto simp: digit_runs_def)
  have "take k s = take k (takeWhile is_digit s @ dropWhile is_digit s)" by simp
  also have "\<dots> = take k (takeWhile is_digit s)" using k(2) by (simp only: take_append) simp
  finally have d: "d = take k (takeWhile is_digit s)" using k(3) by simp
  have "set d \<subseteq> set (takeWhile is_digit s)" unfolding d by (rule set_take_subset)
  then have "list_all is_digit d" by (auto simp: list_all_iff dest: set_takeWhileD)
  moreover have "d \<noteq> []" unfolding d using k(1,2) by auto
  ultimately show ?thesis by simp
qed

text \<open>Rounding keeps the sign: the Number value for a rational that is not negative.\<close>

lemma pow2_pos: "0 < pow2 k"
  by (simp add: pow2_def)

lemma round_even_nonneg: "0 \<le> m \<Longrightarrow> 0 \<le> round_even m"
  by (simp add: round_even_def Let_def)

lemma nearest_pos_nonneg:
  assumes "0 < x"
  shows "at_least_zero (nearest_pos x)"
proof -
  define q where "q = max (exponent_of x) (- 1022) - 52"
  have "0 \<le> x / pow2 q" using assms pow2_pos [of q] by simp
  then have "0 \<le> round_even (x / pow2 q)" by (rule round_even_nonneg)
  then have "(0::rat) \<le> of_int (round_even (x / pow2 q)) * pow2 q"
    using pow2_pos [of q] by simp
  then show ?thesis
    by (simp add: nearest_pos_def Let_def q_def at_least_zero_def)
qed

lemma to_number_nonneg:
  assumes "0 \<le> x"
  shows "at_least_zero (to_number x)"
proof (cases "x = 0")
  case True
  then show ?thesis by (simp add: to_number_def at_least_zero_def)
next
  case False
  with assms have "0 < x" by simp
  then show ?thesis by (simp add: to_number_def nearest_pos_nonneg)
qed

lemma decimal_value_nonneg: "0 \<le> decimal_value s"
  by (auto simp: decimal_value_def Let_def split: list.splits)

lemma takeWhile_digits:
  assumes "d \<noteq> []" "list_all is_digit d"
  shows "takeWhile is_digit (d @ rest) \<noteq> []"
  using assms by (cases d) auto

lemma number_tokens_digit:
  assumes "(tok, r) \<in> set (number_tokens s)"
  shows "takeWhile is_digit tok \<noteq> []"
proof -
  from assms consider
      (int) "(tok, r) \<in> set (digit_runs s)"
    | (frac) d f r' where "(d, 0x2E # r') \<in> set (digit_runs s)" "tok = d @ 0x2E # f"
    by (auto simp: number_tokens_def split: list.splits if_splits)
  then show ?thesis
  proof cases
    case int
    then have "tok \<noteq> []" "list_all is_digit tok" by (simp_all add: digit_runs_digits)
    then show ?thesis using takeWhile_digits [of tok "[]"] by simp
  next
    case frac
    then have "d \<noteq> []" "list_all is_digit d" by (simp_all add: digit_runs_digits)
    then show ?thesis unfolding frac(2) by (rule takeWhile_digits)
  qed
qed

text \<open>
  The quantity of a fragment: \<open>parseFloat\<close> reads a token of the numeric alternative, which
  starts with a digit, so the quantity is the Number value of its literal: never NaN,
  never negative.
\<close>

lemma parse_part_number:
  assumes "match_quantity part = Some (m1, m3)"
  shows "qty (parse_part part) = Finite 1 \<or>
         qty (parse_part part) = to_number (decimal_value m1) \<and> takeWhile is_digit m1 \<noteq> []"
proof (cases "toLowerCase m1 = js ''a'' \<or> toLowerCase m1 = js ''an''")
  case True
  then show ?thesis using assms by (simp add: parse_part_def)
next
  case False
  from assms obtain r where "(m1, r) \<in> set (quantity_tokens part)"
    by (auto elim: match_quantity_Some)
  with False have "(m1, r) \<in> set (number_tokens part)"
    using article_tokens_lower by (auto simp: quantity_tokens_def)
  then have "takeWhile is_digit m1 \<noteq> []" by (rule number_tokens_digit)
  then show ?thesis using assms False by (simp add: parse_part_def parseFloat_def)
qed

lemma parse_part_qty: "at_least_zero (qty (parse_part part))"
proof (cases "match_quantity part")
  case None
  then show ?thesis by (simp add: parse_part_def at_least_zero_def)
next
  case (Some m)
  obtain m1 m3 where "m = (m1, m3)" by (cases m)
  with Some have "match_quantity part = Some (m1, m3)" by simp
  from parse_part_number [OF this] show ?thesis
    using to_number_nonneg [OF decimal_value_nonneg, of m1]
    by (auto simp: at_least_zero_def)
qed

lemma parse_part_default:
  "match_quantity part = None \<Longrightarrow> parse_part part = \<lparr>qty = Finite 1, item_text = part\<rparr>"
  by (simp add: parse_part_def)

lemma ci_prefix_Cons:
  "ci_prefix (p # ps) s \<longleftrightarrow> (\<exists>c s'. s = c # s' \<and> ci_eq p c \<and> ci_prefix ps s')"
  by (cases s) simp_all

lemma and_prefix:
  assumes "ci_prefix (js '' and '') (c # s)"
  shows "separator_char c \<and> (\<forall>x \<in> set (take 4 s). separator_char x)"
  using assms by (auto simp: js_def ci_prefix_Cons separator_char_def)

lemma split_sep_cur: "\<exists>f \<in> set (split_sep cur s). set cur \<subseteq> set f"
proof (induction cur s rule: split_sep.induct)
  case (1 cur)
  then show ?case by simp
next
  case (2 cur c s)
  then show ?case by (auto split: if_splits)
qed

lemma split_sep_covers:
  "x \<in> set s \<Longrightarrow> \<not> separator_char x \<Longrightarrow> \<exists>f \<in> set (split_sep cur s). x \<in> set f"
proof (induction cur s rule: split_sep.induct)
  case (1 cur)
  then show ?case by simp
next
  case (2 cur c s)
  show ?case
  proof (cases "c = 0x2C")
    case True
    with 2 show ?thesis by (auto simp: separator_char_def)
  next
    case comma: False
    show ?thesis
    proof (cases "ci_prefix (js '' and '') (c # s)")
      case True
      from and_prefix [OF True] "2.prems" have "x \<noteq> c" "x \<notin> set (take 4 s)" by auto
      with "2.prems" have "x \<in> set (drop 4 s)"
        by (metis append_take_drop_id set_ConsD set_append UnE)
      with 2 comma True show ?thesis by auto
    next
      case False
      show ?thesis
      proof (cases "x = c")
        case True
        from split_sep_cur [of "cur @ [c]" s] show ?thesis using comma False True by auto
      next
        case xc: False
        with "2.prems" have "x \<in> set s" by simp
        with 2 comma False show ?thesis by auto
      qed
    qed
  qed
qed

lemma parts_covers:
  assumes "x \<in> set query" "\<not> is_space x" "\<not> separator_char x"
  shows "parts query \<noteq> []"
proof -
  from split_sep_covers [OF assms(1) assms(3), of "[]"] obtain f where
    "f \<in> set (split query)" "x \<in> set f"
    by (auto simp: split_def)
  with assms(2) have "\<exists>f \<in> set (split query). \<not> list_all is_space f" by (auto simp: list_all_iff)
  then show ?thesis by (simp add: parts_nonempty_iff)
qed

section \<open>The resolver: lemmas\<close>

declare searchFood_from.simps [simp del]

lemma retry_events_Suc:
  "retry_events k t (Suc n) = Fetch k t # Sleep 300 # retry_events k t n"
  by (simp add: retry_events_def)

lemma searchFood_from_success:
  assumes "attempt \<le> retries" "fetch attempt = Success d"
  shows "searchFood_from fetch k t retries attempt = (attempt_result d, [Fetch k t])"
  using assms
  by (subst searchFood_from.simps) (simp add: attempt_result_def split: list.splits)

lemma searchFood_from_transient_last:
  assumes "transient (fetch retries)"
  shows "searchFood_from fetch k t retries retries = (None, [Fetch k t])"
  using assms
  by (subst searchFood_from.simps) (auto simp: transient_def)

lemma searchFood_from_transient_step:
  assumes "attempt < retries" "transient (fetch attempt)"
  shows "searchFood_from fetch k t retries attempt =
    (fst (searchFood_from fetch k t retries (Suc attempt)),
     Fetch k t # Sleep 300 # snd (searchFood_from fetch k t retries (Suc attempt)))"
  using assms
  by (subst searchFood_from.simps) (auto simp: transient_def split: prod.splits)

lemma searchFood_from_exhausted:
  assumes "attempt + n = retries" "\<forall>a. attempt \<le> a \<and> a \<le> retries \<longrightarrow> transient (fetch a)"
  shows "searchFood_from fetch k t retries attempt = (None, retry_events k t n)"
  using assms
proof (induction n arbitrary: attempt)
  case 0
  then show ?case by (simp add: searchFood_from_transient_last retry_events_def)
next
  case (Suc n)
  then have "searchFood_from fetch k t retries (Suc attempt) = (None, retry_events k t n)"
    by simp
  moreover have "attempt < retries" "transient (fetch attempt)" using Suc.prems by auto
  ultimately show ?case
    by (simp add: searchFood_from_transient_step retry_events_Suc)
qed

lemma searchFood_from_answer:
  assumes "attempt + n = j" "j \<le> retries"
    "\<forall>a. attempt \<le> a \<and> a < j \<longrightarrow> transient (fetch a)" "fetch j = Success d"
  shows "searchFood_from fetch k t retries attempt = (attempt_result d, retry_events k t n)"
  using assms
proof (induction n arbitrary: attempt)
  case 0
  then show ?case by (simp add: searchFood_from_success retry_events_def)
next
  case (Suc n)
  then have
    "searchFood_from fetch k t retries (Suc attempt) = (attempt_result d, retry_events k t n)"
    by simp
  moreover have "attempt < retries" "transient (fetch attempt)" using Suc.prems by auto
  ultimately show ?case
    by (simp add: searchFood_from_transient_step retry_events_Suc)
qed

lemma searchFood_exhausted:
  "\<forall>a \<le> retries. transient (fetch a) \<Longrightarrow>
   searchFood fetch k t retries = (None, retry_events k t retries)"
  unfolding searchFood_def by (rule searchFood_from_exhausted) auto

lemma searchFood_answer:
  "j \<le> retries \<Longrightarrow> \<forall>a < j. transient (fetch a) \<Longrightarrow> fetch j = Success d \<Longrightarrow>
   searchFood fetch k t retries = (attempt_result d, retry_events k t j)"
  unfolding searchFood_def by (rule searchFood_from_answer) auto

lemma not_transient: "\<not> transient r \<Longrightarrow> \<exists>d. r = Success d"
  by (cases r) (auto simp: transient_def)

text \<open>Unless every attempt up to the bound fails, there is a first one that succeeds.\<close>

lemma first_answer:
  assumes "\<not> (\<forall>a \<le> retries. transient (fetch (a::nat)))"
  obtains j d where "j \<le> retries" "\<forall>a < j. transient (fetch a)" "fetch j = Success d"
proof -
  define P where "P a \<longleftrightarrow> \<not> transient (fetch a)" for a
  define j where "j = (LEAST a. P a)"
  from assms obtain a where a: "a \<le> retries" "P a" unfolding P_def by blast
  from a(2) have 1: "P j" unfolding j_def by (rule LeastI)
  from a(2) have "j \<le> a" unfolding j_def by (rule Least_le)
  with a(1) have 2: "j \<le> retries" by simp
  have 3: "\<forall>b < j. transient (fetch b)"
  proof (intro allI impI)
    fix b assume "b < j"
    then have "\<not> P b" unfolding j_def by (rule not_less_Least)
    then show "transient (fetch b)" by (simp add: P_def)
  qed
  from 1 obtain d where 4: "fetch j = Success d" unfolding P_def using not_transient by blast
  from 2 3 4 show thesis by (rule that)
qed

lemma attempt_result_None: "attempt_result d = None \<longleftrightarrow> candidates d = []"
  by (simp add: attempt_result_def split: list.splits)

lemma nutrients_of_snoc:
  "nutrients_of (ns @ [n]) =
     (if nutrientName n = js ''__proto__'' then nutrients_of ns
      else (nutrients_of ns)(nutrientName n \<mapsto> or_num (nutrient_value n) (Finite 0)))"
  by (simp add: nutrients_of_def)

text \<open>The object \<open>nutrients\<close> holds, for each name, what the last entry of that name wrote.\<close>

lemma nutrients_of_last:
  assumes "nm \<noteq> js ''__proto__''"
  shows "nutrients_of ns nm =
     (if named nm ns = [] then None
      else Some (or_num (nutrient_value (last (named nm ns))) (Finite 0)))"
proof (induction ns rule: rev_induct)
  case Nil
  then show ?case by (simp add: nutrients_of_def named_def)
next
  case (snoc n ns)
  show ?case
  proof (cases "nutrientName n = nm")
    case True
    then show ?thesis using assms by (simp add: nutrients_of_snoc named_def)
  next
    case False
    then show ?thesis using snoc by (simp add: nutrients_of_snoc named_def)
  qed
qed

lemma or_num_nutrients:
  "nm \<noteq> js ''__proto__'' \<Longrightarrow> or_num (nutrients_of ns nm) (Finite 0) = named_value ns nm"
  by (simp add: nutrients_of_last named_value_def or_num_def falsy_def split: option.splits)

lemma truthy_nutrients:
  "nm \<noteq> js ''__proto__'' \<Longrightarrow>
   truthy (nutrients_of ns nm) \<longleftrightarrow> named_value ns nm \<noteq> Finite 0"
  by (simp add: nutrients_of_last named_value_def or_num_def truthy_def falsy_def
      split: option.splits)

lemma or_opt_nutrients:
  assumes "a \<noteq> js ''__proto__''" "b \<noteq> js ''__proto__''"
  shows "or_num (or_opt (nutrients_of ns a) (nutrients_of ns b)) (Finite 0) =
     (if named_value ns a \<noteq> Finite 0 then named_value ns a else named_value ns b)"
  using truthy_nutrients [OF assms(1), of ns] or_num_nutrients [OF assms(1), of ns]
    or_num_nutrients [OF assms(2), of ns]
  by (simp add: or_opt_def)

lemma names_read:
  "js ''Energy'' \<noteq> js ''__proto__''"
  "js ''Energy (Atwater General Factors)'' \<noteq> js ''__proto__''"
  "js ''Protein'' \<noteq> js ''__proto__''"
  "js ''Carbohydrate, by difference'' \<noteq> js ''__proto__''"
  "js ''Total lipid (fat)'' \<noteq> js ''__proto__''"
  by (simp_all add: js_def)

lemma named_last:
  assumes "\<forall>n \<in> set post. nutrientName n \<noteq> nutrientName e"
  shows "named (nutrientName e) (pre @ e # post) \<noteq> [] \<and>
         last (named (nutrientName e) (pre @ e # post)) = e"
  using assms by (auto simp: named_def filter_empty_conv)

lemma result_fields:
  "calories (nutrient_result_of food) =
     (if named_value (nutrient_list food) (js ''Energy'') \<noteq> Finite 0
      then named_value (nutrient_list food) (js ''Energy'')
      else named_value (nutrient_list food) (js ''Energy (Atwater General Factors)'')) \<and>
   protein (nutrient_result_of food) = named_value (nutrient_list food) (js ''Protein'') \<and>
   carbs (nutrient_result_of food) =
     named_value (nutrient_list food) (js ''Carbohydrate, by difference'') \<and>
   fat (nutrient_result_of food) = named_value (nutrient_list food) (js ''Total lipid (fat)'') \<and>
   name (nutrient_result_of food) = description food"
  unfolding nutrient_result_of_def Let_def
  by (simp add: or_opt_nutrients or_num_nutrients names_read)

text \<open>
  What the last entry of a name wrote, \<open>value || 0\<close>, is the value the array gives the
  name.
\<close>

lemma named_value_last:
  assumes "\<forall>n \<in> set post. nutrientName n \<noteq> nutrientName e"
  shows "named_value (pre @ e # post) (nutrientName e) = or_num (nutrient_value e) (Finite 0)"
  using named_last [OF assms, of pre]
  by (simp add: named_value_def or_num_def falsy_def split: option.splits)

section \<open>The aggregator: lemmas\<close>

lemma process_items_step_Some:
  assumes "resolve upstream apiKey i item = Some result"
  shows "\<exists>evs. process_items upstream apiKey i (item # items) st =
    process_items upstream apiKey (Suc i) items
      \<lparr>totalNutrients =
         \<lparr>calories = fadd (calories (totalNutrients st)) (fmul (calories result) (qty item)),
          protein = fadd (protein (totalNutrients st)) (fmul (protein result) (qty item)),
          carbs = fadd (carbs (totalNutrients st)) (fmul (carbs result) (qty item)),
          fat = fadd (fat (totalNutrients st)) (fmul (fat result) (qty item))\<rparr>,
       foundItems = foundItems st @ [(qty item, name result)],
       notFoundItems = notFoundItems st,
       events = events st @ evs\<rparr>"
  using assms by (auto simp: resolve_def split: prod.splits option.splits)

lemma process_items_step_None:
  assumes "resolve upstream apiKey i item = None"
  shows "\<exists>evs. process_items upstream apiKey i (item # items) st =
    process_items upstream apiKey (Suc i) items
      \<lparr>totalNutrients = totalNutrients st,
       foundItems = foundItems st,
       notFoundItems = notFoundItems st @ [item_text item],
       events = events st @ evs\<rparr>"
  using assms by (auto simp: resolve_def split: prod.splits option.splits)

text \<open>The two lists after the loop: what was there, then the items of either kind in order.\<close>

lemma process_items_lists:
  "foundItems (process_items upstream apiKey i items st) =
     foundItems st @
     map (\<lambda>(it, r). (qty it, name r)) (resolved (outcomes_from upstream apiKey i items)) \<and>
   notFoundItems (process_items upstream apiKey i items st) =
     notFoundItems st @ map item_text (unresolved (outcomes_from upstream apiKey i items))"
proof (induction items arbitrary: i st)
  case Nil
  then show ?case by simp
next
  case (Cons item items)
  show ?case
  proof (cases "resolve upstream apiKey i item")
    case None
    from process_items_step_None [OF None, of items st] obtain evs where
      "process_items upstream apiKey i (item # items) st =
       process_items upstream apiKey (Suc i) items
         \<lparr>totalNutrients = totalNutrients st,
          foundItems = foundItems st,
          notFoundItems = notFoundItems st @ [item_text item],
          events = events st @ evs\<rparr>" by blast
    then show ?thesis using None by (simp add: Cons.IH)
  next
    case (Some result)
    from process_items_step_Some [OF Some, of items st] obtain evs where
      "process_items upstream apiKey i (item # items) st =
       process_items upstream apiKey (Suc i) items
         \<lparr>totalNutrients =
            \<lparr>calories = fadd (calories (totalNutrients st)) (fmul (calories result) (qty item)),
             protein = fadd (protein (totalNutrients st)) (fmul (protein result) (qty item)),
             carbs = fadd (carbs (totalNutrients st)) (fmul (carbs result) (qty item)),
             fat = fadd (fat (totalNutrients st)) (fmul (fat result) (qty item))\<rparr>,
          foundItems = foundItems st @ [(qty item, name result)],
          notFoundItems = notFoundItems st,
          events = events st @ evs\<rparr>" by blast
    then show ?thesis using Some by (simp add: Cons.IH)
  qed
qed

text \<open>
  The running totals after the loop: to what was there, the products of the resolved
  items are added one by one, in order.
\<close>

lemma process_items_totals:
  "calories (totalNutrients (process_items upstream apiKey i items st)) =
     foldl fadd (calories (totalNutrients st))
       (map (\<lambda>(it, r). fmul (calories r) (qty it))
          (resolved (outcomes_from upstream apiKey i items))) \<and>
   protein (totalNutrients (process_items upstream apiKey i items st)) =
     foldl fadd (protein (totalNutrients st))
       (map (\<lambda>(it, r). fmul (protein r) (qty it))
          (resolved (outcomes_from upstream apiKey i items))) \<and>
   carbs (totalNutrients (process_items upstream apiKey i items st)) =
     foldl fadd (carbs (totalNutrients st))
       (map (\<lambda>(it, r). fmul (carbs r) (qty it))
          (resolved (outcomes_from upstream apiKey i items))) \<and>
   fat (totalNutrients (process_items upstream apiKey i items st)) =
     foldl fadd (fat (totalNutrients st))
       (map (\<lambda>(it, r). fmul (fat r) (qty it))
          (resolved (outcomes_from upstream apiKey i items)))"
proof (induction items arbitrary: i st)
  case Nil
  then show ?case by simp
next
  case (Cons item items)
  show ?case
  proof (cases "resolve upstream apiKey i item")
    case None
    from process_items_step_None [OF None, of items st] obtain evs where
      "process_items upstream apiKey i (item # items) st =
       process_items upstream apiKey (Suc i) items
         \<lparr>totalNutrients = totalNutrients st,
          foundItems = foundItems st,
          notFoundItems = notFoundItems st @ [item_text item],
          events = events st @ evs\<rparr>" by blast
    then show ?thesis using None by (simp add: Cons.IH)
  next
    case (Some result)
    from process_items_step_Some [OF Some, of items st] obtain evs where
      "process_items upstream apiKey i (item # items) st =
       process_items upstream apiKey (Suc i) items
         \<lparr>totalNutrients =
            \<lparr>calories = fadd (calories (totalNutrients st)) (fmul (calories result) (qty item)),
             protein = fadd (protein (totalNutrients st)) (fmul (protein result) (qty item)),
             carbs = fadd (carbs (totalNutrients st)) (fmul (carbs result) (qty item)),
             fat = fadd (fat (totalNutrients st)) (fmul (fat result) (qty item))\<rparr>,
          foundItems = foundItems st @ [(qty item, name result)],
          notFoundItems = notFoundItems st,
          events = events st @ evs\<rparr>" by blast
    then show ?thesis using Some by (simp add: Cons.IH)
  qed
qed

text \<open>The response to a request that has a query and a key.\<close>

lemma handler_valid:
  assumes "query \<noteq> []" "apiKey \<noteq> []"
  shows "fst (handler upstream (Some query) (Some apiKey)) =
    (if resolved (outcomes upstream apiKey query) = [] then Not_found query
     else Found
       \<lparr>out_name =
          map (\<lambda>(it, r). (qty it, name r)) (resolved (outcomes upstream apiKey query)),
        out_calories =
          math_round (weighted_sum calories (resolved (outcomes upstream apiKey query))),
        out_protein =
          math_round (weighted_sum protein (resolved (outcomes upstream apiKey query))),
        out_carbs = math_round (weighted_sum carbs (resolved (outcomes upstream apiKey query))),
        out_fat = math_round (weighted_sum fat (resolved (outcomes upstream apiKey query))),
        partial = (unresolved (outcomes upstream apiKey query) \<noteq> []),
        missing = map item_text (unresolved (outcomes upstream apiKey query))\<rparr>)"
  using assms
  by (simp add: handler_def Let_def outcomes_def weighted_sum_def process_items_lists
      process_items_totals)

section \<open>The properties\<close>

subsection \<open>Aggregator\<close>

text \<open>
  When no item resolves, the response is the object of line 133: it says
  \<open>found: false\<close> and names the phrase, and it has no nutrient field. So the four
  fields are not the rounding of the empty sum there: they are absent.
\<close>

theorem no_totals_counterexample:
  "fst (handler upstream_down (Some (js ''eggs'')) (Some (js ''KEY''))) = Not_found (js ''eggs'') \<and>
   rounded_totals (fst (handler upstream_down (Some (js ''eggs'')) (Some (js ''KEY'')))) \<noteq>
     Some
       (sent (math_round
          (weighted_sum calories (resolved (outcomes upstream_down (js ''KEY'') (js ''eggs''))))),
        sent (math_round
          (weighted_sum protein (resolved (outcomes upstream_down (js ''KEY'') (js ''eggs''))))),
        sent (math_round
          (weighted_sum carbs (resolved (outcomes upstream_down (js ''KEY'') (js ''eggs''))))),
        sent (math_round
          (weighted_sum fat (resolved (outcomes upstream_down (js ''KEY'') (js ''eggs''))))))"
  by code_simp

text \<open>
  C1, for the requests in which at least one item resolves: the fields \<open>calories\<close>,
  \<open>protein\<close>, \<open>carbs\<close> and \<open>fat\<close> of the response are, each, \<open>Math.round\<close> of the sum,
  over exactly the items that resolved, of the field of the item's result times the
  quantity. The products and the sum are those of the program: doubles, the products
  added in the order of the items to a total that starts at zero. The sum is rounded to
  an integer once; no item is rounded by itself. The first conjunct states the fields as
  they are sent (an integer, or \<open>null\<close> when the total is infinite or NaN), the second as
  the Numbers given to \<open>res.json\<close>, the third what is sent for a rounded total. When no
  item resolves, the response has none of the four fields.
\<close>

theorem aggregate_totals:
  assumes "query \<noteq> []" and "apiKey \<noteq> []"
  shows "rounded_totals (fst (handler upstream (Some query) (Some apiKey))) =
    (if resolved (outcomes upstream apiKey query) = [] then None
     else Some
       (sent (math_round (weighted_sum calories (resolved (outcomes upstream apiKey query)))),
        sent (math_round (weighted_sum protein (resolved (outcomes upstream apiKey query)))),
        sent (math_round (weighted_sum carbs (resolved (outcomes upstream apiKey query)))),
        sent (math_round (weighted_sum fat (resolved (outcomes upstream apiKey query)))))) \<and>
    map_option (\<lambda>out. (out_calories out, out_protein out, out_carbs out, out_fat out))
      (outcome_of (fst (handler upstream (Some query) (Some apiKey)))) =
    (if resolved (outcomes upstream apiKey query) = [] then None
     else Some
       (math_round (weighted_sum calories (resolved (outcomes upstream apiKey query))),
        math_round (weighted_sum protein (resolved (outcomes upstream apiKey query))),
        math_round (weighted_sum carbs (resolved (outcomes upstream apiKey query))),
        math_round (weighted_sum fat (resolved (outcomes upstream apiKey query))))) \<and>
    (\<forall>x. sent (math_round x) =
       (case x of Finite r \<Rightarrow> Some (of_int \<lfloor>r + 1 / 2\<rfloor>) | _ \<Rightarrow> None))"
proof -
  have "sent (math_round x) = (case x of Finite r \<Rightarrow> Some (of_int \<lfloor>r + 1 / 2\<rfloor>) | _ \<Rightarrow> None)"
    for x
    by (cases x) (simp_all add: sent_def math_round_def)
  then show ?thesis
    by (simp add: handler_valid [OF assms] rounded_totals_def outcome_of_def)
qed

text \<open>
  For \<open>0.7 cups rice\<close> at 165 the doubles give 115.49999999999999 and the field is 115,
  where the exact product is 115.5. Two eggs at 0.3125 and a banana at 0.625 give 1.25,
  reported as 1; rounding each item first would have given 2.
\<close>

theorem aggregate_totals_witness:
  "rounded_totals (fst (handler upstream_rice (Some (js ''0.7 cups rice'')) (Some (js ''KEY'')))) =
     Some (Some 115, Some 0, Some 0, Some 0) \<and>
   rounded_totals
     (fst (handler upstream_both (Some (js ''2 eggs and a banana'')) (Some (js ''KEY'')))) =
     Some (Some 1, Some 13, Some 23, Some 0) \<and>
   fadd (math_round (fmul (Finite (5 / 16)) (Finite 2)))
        (math_round (fmul (Finite (5 / 8)) (Finite 1))) = Finite 2"
proof -
  have q: "js ''0.7 cups rice'' \<noteq> []" "js ''2 eggs and a banana'' \<noteq> []" "js ''KEY'' \<noteq> []"
    by (simp_all add: js_def)
  let ?R = "[(\<lparr>qty = to_number (7 / 10), item_text = js ''cups rice''\<rparr>, nutrient_result_of rice)]"
  let ?S = "[(\<lparr>qty = Finite 2, item_text = js ''eggs''\<rparr>, nutrient_result_of egg),
       (\<lparr>qty = Finite 1, item_text = js ''banana''\<rparr>, nutrient_result_of banana)]"
  have r: "resolved (outcomes upstream_rice (js ''KEY'') (js ''0.7 cups rice'')) = ?R"
    by code_simp
  have s: "resolved (outcomes upstream_both (js ''KEY'') (js ''2 eggs and a banana'')) = ?S"
    by code_simp
  have e: "sent (math_round (weighted_sum calories ?R)) = Some 115"
    "sent (math_round (weighted_sum protein ?R)) = Some 0"
    "sent (math_round (weighted_sum carbs ?R)) = Some 0"
    "sent (math_round (weighted_sum fat ?R)) = Some 0"
    "sent (math_round (weighted_sum calories ?S)) = Some 1"
    "sent (math_round (weighted_sum protein ?S)) = Some 13"
    "sent (math_round (weighted_sum carbs ?S)) = Some 23"
    "sent (math_round (weighted_sum fat ?S)) = Some 0"
    by code_simp+
  have p: "fadd (math_round (fmul (Finite (5 / 16)) (Finite 2)))
        (math_round (fmul (Finite (5 / 8)) (Finite 1))) = Finite 2"
    by code_simp
  note t1 = aggregate_totals [OF q(1) q(3), of upstream_rice, THEN conjunct1, unfolded r]
  note t2 = aggregate_totals [OF q(2) q(3), of upstream_both, THEN conjunct1, unfolded s]
  from t1 t2 e p show ?thesis by (simp only: list.distinct if_False simp_thms)
qed

text \<open>
  When no item resolves, the response has no list \<open>missing\<close> (and no \<open>partial\<close>),
  although the item did not resolve.
\<close>

theorem no_missing_counterexample:
  "fst (handler upstream_down (Some (js ''eggs'')) (Some (js ''KEY''))) = Not_found (js ''eggs'') \<and>
   map item_text (unresolved (outcomes upstream_down (js ''KEY'') (js ''eggs''))) = [js ''eggs''] \<and>
   map_option missing (outcome_of (fst (handler upstream_down (Some (js ''eggs'')) (Some (js ''KEY''))))) = None"
  by code_simp

text \<open>
  C2, with the list \<open>missing\<close> stated for the responses that carry it: \<open>found\<close> is
  true exactly when at least one item resolved. When at least one item resolved,
  \<open>partial\<close> is true exactly when some item did not resolve, that is when \<open>missing\<close>
  is not empty, and \<open>missing\<close> holds the texts of the items that did not resolve, in
  their order in the phrase. When no item resolved, the response is the object that says
  \<open>found: false\<close> and names the phrase; it has neither \<open>partial\<close> nor \<open>missing\<close>.
  The last three conjuncts say what the outcomes are: one per item of the phrase, in
  order, the unresolved ones being those whose outcome is not-found.
\<close>

theorem aggregate_flags:
  assumes "query \<noteq> []" and "apiKey \<noteq> []"
  shows "found (fst (handler upstream (Some query) (Some apiKey))) =
      Some (resolved (outcomes upstream apiKey query) \<noteq> []) \<and>
    map_option partial (outcome_of (fst (handler upstream (Some query) (Some apiKey)))) =
      (if resolved (outcomes upstream apiKey query) = [] then None
       else Some (unresolved (outcomes upstream apiKey query) \<noteq> [])) \<and>
    map_option missing (outcome_of (fst (handler upstream (Some query) (Some apiKey)))) =
      (if resolved (outcomes upstream apiKey query) = [] then None
       else Some (map item_text (unresolved (outcomes upstream apiKey query)))) \<and>
    (resolved (outcomes upstream apiKey query) = [] \<longrightarrow>
       fst (handler upstream (Some query) (Some apiKey)) = Not_found query) \<and>
    map fst (outcomes upstream apiKey query) = parseItems query \<and>
    unresolved (outcomes upstream apiKey query) =
      map fst (filter (\<lambda>(it, r). r = None) (outcomes upstream apiKey query)) \<and>
    map fst (resolved (outcomes upstream apiKey query)) =
      map fst (filter (\<lambda>(it, r). r \<noteq> None) (outcomes upstream apiKey query))"
proof -
  have 1: "map fst (outcomes_from upstream apiKey i items) = items" for i items
    by (induction items arbitrary: i) simp_all
  have 2: "unresolved rs = map fst (filter (\<lambda>(it, r). r = None) rs)"
    for rs :: "(item \<times> nutrient_result option) list"
    by (induction rs rule: unresolved.induct) simp_all
  have 3: "map fst (resolved rs) = map fst (filter (\<lambda>(it, r). r \<noteq> None) rs)"
    for rs :: "(item \<times> nutrient_result option) list"
    by (induction rs rule: resolved.induct) simp_all
  have 4: "map fst (outcomes upstream apiKey query) = parseItems query"
    by (simp add: outcomes_def 1)
  show ?thesis
    using 2 [of "outcomes upstream apiKey query"] 3 [of "outcomes upstream apiKey query"] 4
    by (simp add: handler_valid [OF assms] found_def outcome_of_def)
qed

theorem aggregate_flags_witness:
  "found (fst (handler upstream_first (Some (js ''2 eggs and a banana'')) (Some (js ''KEY'')))) = Some True \<and>
   map_option partial (outcome_of (fst (handler upstream_first (Some (js ''2 eggs and a banana'')) (Some (js ''KEY''))))) = Some True \<and>
   map_option missing (outcome_of (fst (handler upstream_first (Some (js ''2 eggs and a banana'')) (Some (js ''KEY''))))) = Some [js ''banana'']"
proof -
  have q: "js ''2 eggs and a banana'' \<noteq> []" "js ''KEY'' \<noteq> []" by (simp_all add: js_def)
  have r: "resolved (outcomes upstream_first (js ''KEY'') (js ''2 eggs and a banana'')) =
      [(\<lparr>qty = Finite 2, item_text = js ''eggs''\<rparr>, nutrient_result_of egg)]"
    "unresolved (outcomes upstream_first (js ''KEY'') (js ''2 eggs and a banana'')) =
      [\<lparr>qty = Finite 1, item_text = js ''banana''\<rparr>]"
    by code_simp+
  show ?thesis
    using aggregate_flags [OF q, of upstream_first] by (simp add: r)
qed

subsection \<open>Resolver\<close>

text \<open>
  C3: a failed attempt (a status that is no success, or an exception) is retried after a
  pause of 300 milliseconds while attempts remain. When every attempt up to the bound
  fails, \<open>searchFood\<close> requests \<open>retries + 1\<close> times, pauses between two requests, and
  returns not-found. When an attempt within the bound gets a successful response after
  \<open>j\<close> failed ones, there were \<open>j\<close> pauses, that attempt's request is the last event, and
  the result is the answer to that response: the first candidate, or not-found at once
  when there is none. Not-found is returned in these two cases only, and it is the same
  value, \<open>null\<close>, in both.
\<close>

theorem searchFood_retry:
  "((\<forall>a \<le> retries. transient (fetch a)) \<longrightarrow>
      searchFood fetch apiKey itemText retries = (None, retry_events apiKey itemText retries)) \<and>
   (\<forall>j d. j \<le> retries \<and> (\<forall>a < j. transient (fetch a)) \<and> fetch j = Success d \<longrightarrow>
      searchFood fetch apiKey itemText retries =
        (attempt_result d, retry_events apiKey itemText j)) \<and>
   (\<forall>j d. j \<le> retries \<and> (\<forall>a < j. transient (fetch a)) \<and> fetch j = Success d \<and>
        candidates d = [] \<longrightarrow>
      searchFood fetch apiKey itemText retries = (None, retry_events apiKey itemText j)) \<and>
   (fst (searchFood fetch apiKey itemText retries) = None \<longrightarrow>
      (\<forall>a \<le> retries. transient (fetch a)) \<or>
      (\<exists>j d. j \<le> retries \<and> (\<forall>a < j. transient (fetch a)) \<and> fetch j = Success d \<and>
         candidates d = [])) \<and>
   transient Thrown \<and> transient Status_not_ok"
proof (intro conjI allI impI)
  assume "\<forall>a \<le> retries. transient (fetch a)"
  then show "searchFood fetch apiKey itemText retries = (None, retry_events apiKey itemText retries)"
    by (rule searchFood_exhausted)
next
  fix j d
  assume "j \<le> retries \<and> (\<forall>a < j. transient (fetch a)) \<and> fetch j = Success d"
  then show "searchFood fetch apiKey itemText retries =
      (attempt_result d, retry_events apiKey itemText j)"
    by (simp add: searchFood_answer)
next
  fix j d
  assume a: "j \<le> retries \<and> (\<forall>a < j. transient (fetch a)) \<and> fetch j = Success d \<and>
    candidates d = []"
  then have "searchFood fetch apiKey itemText retries =
      (attempt_result d, retry_events apiKey itemText j)"
    by (simp add: searchFood_answer)
  moreover from a have "attempt_result d = None" by (simp add: attempt_result_None)
  ultimately show "searchFood fetch apiKey itemText retries = (None, retry_events apiKey itemText j)"
    by simp
next
  assume n: "fst (searchFood fetch apiKey itemText retries) = None"
  show "(\<forall>a \<le> retries. transient (fetch a)) \<or>
      (\<exists>j d. j \<le> retries \<and> (\<forall>a < j. transient (fetch a)) \<and> fetch j = Success d \<and>
         candidates d = [])"
  proof (cases "\<forall>a \<le> retries. transient (fetch a)")
    case True
    then show ?thesis by simp
  next
    case False
    then obtain j d where jd: "j \<le> retries" "\<forall>a < j. transient (fetch a)" "fetch j = Success d"
      by (rule first_answer)
    then have "searchFood fetch apiKey itemText retries =
        (attempt_result d, retry_events apiKey itemText j)"
      by (rule searchFood_answer)
    with n have "candidates d = []" by (simp add: attempt_result_None)
    with jd show ?thesis by blast
  qed
next
  show "transient Thrown" by (simp add: transient_def)
next
  show "transient Status_not_ok" by (simp add: transient_def)
qed

text \<open>
  With the default of two retries: three requests and two pauses when the upstream is
  down; one pause and two requests when the second attempt finds the egg; one request when
  the first response has no candidate.
\<close>

theorem searchFood_retry_witness:
  "searchFood (upstream_down 0) (js ''KEY'') (js ''eggs'') default_retries =
     (None, [Fetch (js ''KEY'') (js ''eggs''), Sleep 300,
             Fetch (js ''KEY'') (js ''eggs''), Sleep 300,
             Fetch (js ''KEY'') (js ''eggs'')]) \<and>
   searchFood (upstream_first 0) (js ''KEY'') (js ''eggs'') default_retries =
     (Some (nutrient_result_of egg),
      [Fetch (js ''KEY'') (js ''eggs''), Sleep 300, Fetch (js ''KEY'') (js ''eggs'')]) \<and>
   searchFood (upstream_first 1) (js ''KEY'') (js ''eggs'') default_retries =
     (None, [Fetch (js ''KEY'') (js ''eggs'')])"
proof -
  have 1: "\<forall>a \<le> default_retries. transient (upstream_down 0 a)"
    by (simp add: transient_def upstream_down_def)
  have 2: "(1::nat) \<le> default_retries \<and> (\<forall>a < 1. transient (upstream_first 0 a)) \<and>
      upstream_first 0 1 = Success \<lparr>foods = Some [egg]\<rparr>"
    by (simp add: upstream_first_def transient_def default_retries_def)
  have 3: "(0::nat) \<le> default_retries \<and> (\<forall>a < 0. transient (upstream_first 1 a)) \<and>
      upstream_first 1 0 = Success \<lparr>foods = Some []\<rparr> \<and> candidates \<lparr>foods = Some []\<rparr> = []"
    by (simp add: upstream_first_def candidates_def)
  have e: "retry_events (js ''KEY'') (js ''eggs'') default_retries =
      [Fetch (js ''KEY'') (js ''eggs''), Sleep 300,
       Fetch (js ''KEY'') (js ''eggs''), Sleep 300, Fetch (js ''KEY'') (js ''eggs'')]"
    "retry_events (js ''KEY'') (js ''eggs'') 1 =
      [Fetch (js ''KEY'') (js ''eggs''), Sleep 300, Fetch (js ''KEY'') (js ''eggs'')]"
    "retry_events (js ''KEY'') (js ''eggs'') 0 = [Fetch (js ''KEY'') (js ''eggs'')]"
    by (simp_all add: retry_events_def default_retries_def numeral_2_eq_2)
  have a: "attempt_result \<lparr>foods = Some [egg]\<rparr> = Some (nutrient_result_of egg)"
    by (simp add: attempt_result_def candidates_def)
  from searchFood_retry [of default_retries "upstream_down 0" "js ''KEY''" "js ''eggs''"] 1
  have "searchFood (upstream_down 0) (js ''KEY'') (js ''eggs'') default_retries =
      (None, retry_events (js ''KEY'') (js ''eggs'') default_retries)" by blast
  moreover
  from searchFood_retry [of default_retries "upstream_first 0" "js ''KEY''" "js ''eggs''"] 2
  have "searchFood (upstream_first 0) (js ''KEY'') (js ''eggs'') default_retries =
      (attempt_result \<lparr>foods = Some [egg]\<rparr>, retry_events (js ''KEY'') (js ''eggs'') 1)"
    by blast
  moreover
  from searchFood_retry [of default_retries "upstream_first 1" "js ''KEY''" "js ''eggs''"] 3
  have "searchFood (upstream_first 1) (js ''KEY'') (js ''eggs'') default_retries =
      (None, retry_events (js ''KEY'') (js ''eggs'') 0)" by blast
  ultimately show ?thesis by (simp only: e a)
qed

text \<open>
  C8: when the first attempt fails and the second succeeds, with at least one retry
  allowed (two by default), the result is the one the call returns when the same response
  arrives at the first attempt.
\<close>

theorem retry_transparent:
  assumes "transient (fetch 0)" and "fetch 1 = Success d" and "1 \<le> retries"
    and "fetch' 0 = Success d"
  shows "fst (searchFood fetch apiKey itemText retries) =
         fst (searchFood fetch' apiKey itemText retries) \<and>
         fst (searchFood fetch apiKey itemText retries) = attempt_result d"
proof -
  have "\<forall>a < 1. transient (fetch a)" using assms(1) by simp
  with assms(3) have
    "searchFood fetch apiKey itemText retries = (attempt_result d, retry_events apiKey itemText 1)"
    using assms(2) by (rule searchFood_answer)
  moreover have
    "searchFood fetch' apiKey itemText retries = (attempt_result d, retry_events apiKey itemText 0)"
    using assms(4) by (intro searchFood_answer) simp_all
  ultimately show ?thesis by simp
qed

theorem retry_transparent_witness:
  "fst (searchFood (upstream_first 0) (js ''KEY'') (js ''eggs'') default_retries) =
     fst (searchFood (upstream_both 0) (js ''KEY'') (js ''eggs'') default_retries) \<and>
   fst (searchFood (upstream_first 0) (js ''KEY'') (js ''eggs'') default_retries) =
     Some (nutrient_result_of egg)"
proof -
  have "transient (upstream_first 0 0)" "upstream_first 0 1 = Success \<lparr>foods = Some [egg]\<rparr>"
    "1 \<le> default_retries" "upstream_both 0 0 = Success \<lparr>foods = Some [egg]\<rparr>"
    by (simp_all add: transient_def upstream_first_def upstream_both_def default_retries_def)
  from retry_transparent [where fetch = "upstream_first 0" and fetch' = "upstream_both 0"
      and apiKey = "js ''KEY''" and itemText = "js ''eggs''", OF this]
  have r: "fst (searchFood (upstream_first 0) (js ''KEY'') (js ''eggs'') default_retries) =
      fst (searchFood (upstream_both 0) (js ''KEY'') (js ''eggs'') default_retries) \<and>
    fst (searchFood (upstream_first 0) (js ''KEY'') (js ''eggs'') default_retries) =
      attempt_result \<lparr>foods = Some [egg]\<rparr>" .
  have a: "attempt_result \<lparr>foods = Some [egg]\<rparr> = Some (nutrient_result_of egg)"
    by (simp add: attempt_result_def candidates_def)
  from r show ?thesis unfolding a .
qed

text \<open>
  A successful response whose body is the JSON value \<open>null\<close> has no array \<open>foods\<close>, and
  is not answered at once: reading \<open>data.foods\<close> throws inside the \<open>try\<close> block, and the
  \<open>catch\<close> block retries. With two retries there are three requests and two pauses.
\<close>

theorem null_body_counterexample:
  "searchFood (upstream_null 0) (js ''KEY'') (js ''eggs'') default_retries =
     (None, [Fetch (js ''KEY'') (js ''eggs''), Sleep 300,
             Fetch (js ''KEY'') (js ''eggs''), Sleep 300,
             Fetch (js ''KEY'') (js ''eggs'')]) \<and>
   searchFood (upstream_null 0) (js ''KEY'') (js ''eggs'') default_retries \<noteq>
     (None, [Fetch (js ''KEY'') (js ''eggs'')])"
  by code_simp

text \<open>
  C9, for the bodies that are not \<open>null\<close>: a successful response whose body has no member
  \<open>foods\<close>, or has \<open>null\<close> there, is answered as a response with an empty array is:
  not-found, returned at that attempt, with no further request and no exception. A
  successful response whose body is \<open>null\<close> is a failed attempt: it is retried after the
  pause while attempts remain, and not-found is returned when none does.
\<close>

theorem absent_foods_is_content_miss:
  "(\<forall>d j. foods d = None \<and> j \<le> retries \<and> (\<forall>a < j. transient (fetch a)) \<and>
        fetch j = Success d \<longrightarrow>
      searchFood fetch apiKey itemText retries = (None, retry_events apiKey itemText j) \<and>
      searchFood fetch apiKey itemText retries =
        searchFood (fetch(j := Success \<lparr>foods = Some []\<rparr>)) apiKey itemText retries) \<and>
   transient Body_null \<and>
   ((\<forall>a \<le> retries. fetch a = Body_null) \<longrightarrow>
      searchFood fetch apiKey itemText retries = (None, retry_events apiKey itemText retries))"
proof (intro conjI allI impI)
  fix d j
  assume a: "foods d = None \<and> j \<le> retries \<and> (\<forall>a < j. transient (fetch a)) \<and>
    fetch j = Success d"
  then have "attempt_result d = None" by (simp add: attempt_result_def candidates_def)
  moreover from a have
    "searchFood fetch apiKey itemText retries =
       (attempt_result d, retry_events apiKey itemText j)"
    by (simp add: searchFood_answer)
  ultimately show
    1: "searchFood fetch apiKey itemText retries = (None, retry_events apiKey itemText j)"
    by simp
  from a have "\<forall>a < j. transient ((fetch(j := Success \<lparr>foods = Some []\<rparr>)) a)"
    by simp
  moreover from a have "j \<le> retries" by simp
  ultimately have
    "searchFood (fetch(j := Success \<lparr>foods = Some []\<rparr>)) apiKey itemText retries =
       (attempt_result \<lparr>foods = Some []\<rparr>, retry_events apiKey itemText j)"
    by (intro searchFood_answer) simp_all
  then show "searchFood fetch apiKey itemText retries =
      searchFood (fetch(j := Success \<lparr>foods = Some []\<rparr>)) apiKey itemText retries"
    using 1 by (simp add: attempt_result_def candidates_def)
next
  show "transient Body_null" by (simp add: transient_def)
next
  assume "\<forall>a \<le> retries. fetch a = Body_null"
  then have "\<forall>a \<le> retries. transient (fetch a)" by (simp add: transient_def)
  then show "searchFood fetch apiKey itemText retries = (None, retry_events apiKey itemText retries)"
    by (rule searchFood_exhausted)
qed

theorem absent_foods_is_content_miss_witness:
  "searchFood (\<lambda>a. Success \<lparr>foods = None\<rparr>) (js ''KEY'') (js ''eggs'') default_retries =
     (None, [Fetch (js ''KEY'') (js ''eggs'')])"
proof -
  have "foods \<lparr>foods = None\<rparr> = None \<and> (0::nat) \<le> default_retries \<and>
    (\<forall>a < (0::nat). transient ((\<lambda>a. Success \<lparr>foods = None\<rparr>) a)) \<and>
    (\<lambda>a. Success \<lparr>foods = None\<rparr>) (0::nat) = Success \<lparr>foods = None\<rparr>"
    by simp
  with absent_foods_is_content_miss
    [where fetch = "\<lambda>a. Success \<lparr>foods = None\<rparr>" and retries = default_retries
      and apiKey = "js ''KEY''" and itemText = "js ''eggs''"]
  have "searchFood (\<lambda>a. Success \<lparr>foods = None\<rparr>) (js ''KEY'') (js ''eggs'') default_retries =
     (None, retry_events (js ''KEY'') (js ''eggs'') 0)"
    by blast
  then show ?thesis by (simp add: retry_events_def)
qed

text \<open>
  A food whose \<open>Energy\<close> is present with the value zero takes its calories from the
  Atwater entry: \<open>||\<close> passes over a zero as it passes over a missing value.
\<close>

theorem energy_zero_counterexample:
  "named (js ''Energy'') (nutrient_list zero_energy) \<noteq> [] \<and>
   claimed_calories (nutrient_list zero_energy) = Finite 0 \<and>
   calories (nutrient_result_of zero_energy) = Finite 50"
  by code_simp

text \<open>
  C5, with presence read as the code reads it: the calories are the value of \<open>Energy\<close>
  when that value is not zero, and the value of \<open>Energy (Atwater General Factors)\<close>
  otherwise; protein, carbs and fat are the values of \<open>Protein\<close>,
  \<open>Carbohydrate, by difference\<close> and \<open>Total lipid (fat)\<close>. The value of a name is zero
  when no entry has the name or the entry has no value.
\<close>

theorem nutrient_fields:
  "calories (nutrient_result_of food) =
     (if named_value (nutrient_list food) (js ''Energy'') \<noteq> Finite 0
      then named_value (nutrient_list food) (js ''Energy'')
      else named_value (nutrient_list food) (js ''Energy (Atwater General Factors)'')) \<and>
   protein (nutrient_result_of food) = named_value (nutrient_list food) (js ''Protein'') \<and>
   carbs (nutrient_result_of food) =
     named_value (nutrient_list food) (js ''Carbohydrate, by difference'') \<and>
   fat (nutrient_result_of food) = named_value (nutrient_list food) (js ''Total lipid (fat)'')"
  using result_fields [of food] by blast

theorem nutrient_fields_witness:
  "calories (nutrient_result_of egg) = Finite (5 / 16) \<and>
   protein (nutrient_result_of egg) = Finite (25 / 4) \<and>
   carbs (nutrient_result_of egg) = Finite 0 \<and> fat (nutrient_result_of egg) = Finite 0"
proof -
  have "named_value (nutrient_list egg) (js ''Energy'') = Finite (5 / 16)"
    "named_value (nutrient_list egg) (js ''Protein'') = Finite (25 / 4)"
    "named_value (nutrient_list egg) (js ''Carbohydrate, by difference'') = Finite 0"
    "named_value (nutrient_list egg) (js ''Total lipid (fat)'') = Finite 0"
    by code_simp+
  then show ?thesis using nutrient_fields [of egg] by simp
qed

text \<open>
  A food that names \<open>Energy\<close> twice, the last time with the value zero, and has an
  Atwater entry: the calories are the Atwater value, not the value of the last entry
  named \<open>Energy\<close>.
\<close>

theorem last_energy_zero_counterexample:
  "nutrient_value (last (named (js ''Energy'') (nutrient_list twice_energy))) = Some (Finite 0) \<and>
   calories (nutrient_result_of twice_energy) = Finite 40"
  by code_simp

text \<open>
  C10, with the calories read through \<open>||\<close>: of the entries of one name, the last is the
  one the object \<open>nutrients\<close> keeps (under every name that is written), and its value
  (zero when it has none) is the one the field of that name is computed from: it is the
  protein, the carbs or the fat; it is the calories when the name is \<open>Energy\<close> and the
  value is not zero, or when the name is the Atwater variant and the value of \<open>Energy\<close>
  is zero. When the last value of \<open>Energy\<close> is zero, the calories are the last value of
  the Atwater variant.
\<close>

theorem last_entry_wins:
  assumes "nutrient_list food = pre @ e # post"
    and "\<forall>n \<in> set post. nutrientName n \<noteq> nutrientName e"
  shows "(nutrientName e \<noteq> js ''__proto__'' \<longrightarrow>
       nutrients_of (nutrient_list food) (nutrientName e) =
         Some (or_num (nutrient_value e) (Finite 0))) \<and>
    (nutrientName e = js ''Protein'' \<longrightarrow>
       protein (nutrient_result_of food) = or_num (nutrient_value e) (Finite 0)) \<and>
    (nutrientName e = js ''Carbohydrate, by difference'' \<longrightarrow>
       carbs (nutrient_result_of food) = or_num (nutrient_value e) (Finite 0)) \<and>
    (nutrientName e = js ''Total lipid (fat)'' \<longrightarrow>
       fat (nutrient_result_of food) = or_num (nutrient_value e) (Finite 0)) \<and>
    (nutrientName e = js ''Energy'' \<longrightarrow>
       calories (nutrient_result_of food) =
         (if or_num (nutrient_value e) (Finite 0) \<noteq> Finite 0
          then or_num (nutrient_value e) (Finite 0)
          else named_value (nutrient_list food) (js ''Energy (Atwater General Factors)''))) \<and>
    (nutrientName e = js ''Energy (Atwater General Factors)'' \<longrightarrow>
       calories (nutrient_result_of food) =
         (if named_value (nutrient_list food) (js ''Energy'') \<noteq> Finite 0
          then named_value (nutrient_list food) (js ''Energy'')
          else or_num (nutrient_value e) (Finite 0)))"
proof -
  have v: "named_value (nutrient_list food) (nutrientName e) =
      or_num (nutrient_value e) (Finite 0)"
    unfolding assms(1) using assms(2) by (rule named_value_last)
  have "nutrients_of (nutrient_list food) (nutrientName e) =
      Some (or_num (nutrient_value e) (Finite 0))"
    if "nutrientName e \<noteq> js ''__proto__''"
    unfolding assms(1) using named_last [OF assms(2), of pre]
    by (simp add: nutrients_of_last [OF that])
  then show ?thesis using v result_fields [of food] by auto
qed

theorem last_entry_wins_witness:
  "protein (nutrient_result_of \<lparr>description = js ''Tofu'', foodNutrients = Some twice_protein\<rparr>) =
     Finite 7"
proof -
  let ?food = "\<lparr>description = js ''Tofu'', foodNutrients = Some twice_protein\<rparr>"
  let ?e = "\<lparr>nutrientName = js ''Protein'', nutrient_value = Some (Finite 7)\<rparr>"
  let ?pre = "[\<lparr>nutrientName = js ''Protein'', nutrient_value = Some (Finite 5)\<rparr>]"
  let ?post = "[\<lparr>nutrientName = js ''Energy'', nutrient_value = Some (Finite 100)\<rparr>]"
  have 1: "nutrient_list ?food = ?pre @ ?e # ?post"
    by (simp add: nutrient_list_def twice_protein_def)
  have 2: "\<forall>n \<in> set ?post. nutrientName n \<noteq> nutrientName ?e"
    by (simp add: js_def)
  from last_entry_wins [OF 1 2] show ?thesis by (simp add: or_num_def falsy_def)
qed

subsection \<open>Segmenter\<close>

text \<open>
  C4: the two phrases of the specification.
\<close>

theorem parseItems_examples:
  "parseItems (js ''2 eggs and a banana'') =
     [\<lparr>qty = Finite 2, item_text = js ''eggs''\<rparr>, \<lparr>qty = Finite 1, item_text = js ''banana''\<rparr>] \<and>
   parseItems (js ''chicken breast with rice'') =
     [\<lparr>qty = Finite 1, item_text = js ''chicken breast with rice''\<rparr>]"
  by code_simp

text \<open>
  A phrase that is not empty may hold separators and blanks only.
\<close>

theorem parseItems_empty_counterexample:
  "js '','' \<noteq> [] \<and> parseItems (js '','') = []"
  by code_simp

text \<open>
  C6, for the phrases that hold an item: \<open>parseItems\<close> returns a sequence that is not
  empty exactly when some fragment between separators is not made of blanks only. This is
  so whenever the phrase holds a code unit that is neither a blank nor one a separator is
  made of (the comma and the letters of \<open>and\<close>).
\<close>

theorem parseItems_nonempty:
  "(parseItems query \<noteq> [] \<longleftrightarrow> (\<exists>f \<in> set (split query). \<not> list_all is_space f)) \<and>
   ((\<exists>x \<in> set query. \<not> is_space x \<and> \<not> separator_char x) \<longrightarrow> parseItems query \<noteq> [])"
  using parts_covers [of _ query] by (auto simp: parseItems_def parts_nonempty_iff)

theorem parseItems_nonempty_witness:
  "(\<exists>x \<in> set (js ''2 eggs''). \<not> is_space x \<and> \<not> separator_char x) \<and>
   parseItems (js ''2 eggs'') \<noteq> []"
proof -
  have h: "\<exists>x \<in> set (js ''2 eggs''). \<not> is_space x \<and> \<not> separator_char x"
    by code_simp
  with parseItems_nonempty [of "js ''2 eggs''"] show ?thesis by blast
qed

text \<open>
  A leading number may be zero.
\<close>

theorem parseItems_zero_counterexample:
  "parseItems (js ''0 eggs'') = [\<lparr>qty = Finite 0, item_text = js ''eggs''\<rparr>]"
  by code_simp

text \<open>
  C7, with zero allowed: every item has a quantity that is at least zero (a Number that
  is not negative and not NaN) and a text that is not empty. The item comes from a trimmed
  fragment; when the expression does not match the fragment, the quantity is 1 and the
  text is the fragment.
\<close>

theorem parseItems_item:
  assumes "it \<in> set (parseItems query)"
  shows "at_least_zero (qty it) \<and> item_text it \<noteq> [] \<and>
    (\<exists>part \<in> set (parts query). it = parse_part part \<and>
       (match_quantity part = None \<longrightarrow> qty it = Finite 1 \<and> item_text it = part))"
proof -
  from assms obtain part where p: "part \<in> set (parts query)" "it = parse_part part"
    by (auto simp: parseItems_def)
  from p(1) have "part \<noteq> []" "\<not> is_space (last part)" by (simp_all add: parts_trimmed)
  then have "item_text it \<noteq> []" unfolding p(2) by (rule parse_part_text)
  moreover have "at_least_zero (qty it)" unfolding p(2) by (rule parse_part_qty)
  moreover have "match_quantity part = None \<longrightarrow> qty it = Finite 1 \<and> item_text it = part"
    unfolding p(2) by (simp add: parse_part_default)
  ultimately show ?thesis using p by (intro conjI bexI [of _ part]) assumption+
qed

theorem parseItems_item_witness:
  "\<lparr>qty = Finite (3 / 2), item_text = js ''cups rice''\<rparr> \<in>
     set (parseItems (js ''1.5 cups rice, toast'')) \<and>
   at_least_zero (Finite (3 / 2)) \<and> js ''cups rice'' \<noteq> []"
proof -
  have m: "\<lparr>qty = Finite (3 / 2), item_text = js ''cups rice''\<rparr> \<in>
      set (parseItems (js ''1.5 cups rice, toast''))"
    by code_simp
  from parseItems_item [OF m] show ?thesis using m by simp
qed

end
